theory Spec2Isabelle
  imports Complex_Main
begin

section \<open>JavaScript values and errors\<close>

text \<open>
  The voice engine of \<^verbatim>\<open>src/js/piano.js\<close> (lines 25-27 and 126-188) is embedded
  together with the part of the browser it drives: the key elements of the page, the
  nodes and parameters of the Web Audio graph, and the timer queue of the event loop.
  JavaScript numbers are modelled as real numbers plus \<open>NaN\<close>; the rounding and the
  overflow of IEEE doubles are not modelled. The range of the single-precision numbers
  that audio parameters hold is modelled. An exception is a value of \<open>js_error\<close>, and a call that can
  throw returns \<open>js_error + 'a\<close>.
\<close>

datatype js_error = TypeError | RangeError | InvalidStateError

datatype number = NaN | Num real

definition bindE :: "js_error + 'a \<Rightarrow> ('a \<Rightarrow> js_error + 'b) \<Rightarrow> js_error + 'b" where
  "bindE m f = (case m of Inl e \<Rightarrow> Inl e | Inr x \<Rightarrow> f x)"

subsection \<open>parseInt with radix 10\<close>

text \<open>
  \<^verbatim>\<open>parseInt(str, 10)\<close>: leading white space is skipped, one sign is read, then the
  longest run of decimal digits; no digit at all gives \<open>NaN\<close>. Strings are byte lists
  here, so only the ASCII white space characters are recognised.
\<close>

definition is_space :: "char \<Rightarrow> bool" where
  "is_space c = (c \<in> set [CHR 0x09, CHR 0x0A, CHR 0x0B, CHR 0x0C, CHR 0x0D, CHR 0x20])"

definition is_digit :: "char \<Rightarrow> bool" where
  "is_digit c = (c \<in> set ''0123456789'')"

definition digit_val :: "char \<Rightarrow> nat" where
  "digit_val c = of_char c - 48"

definition parseInt :: "string \<Rightarrow> number" where
  "parseInt str =
     (let s = dropWhile is_space str;
          neg = (case s of [] \<Rightarrow> False | c # _ \<Rightarrow> c = CHR ''-'');
          body = (case s of [] \<Rightarrow> []
                  | c # r \<Rightarrow> if c = CHR ''+'' \<or> c = CHR ''-'' then r else s);
          z = takeWhile is_digit body
      in if z = [] then NaN
         else let n = foldl (\<lambda>a c. 10 * a + digit_val c) 0 z
              in Num (if neg then - real n else real n))"

subsection \<open>Pitch\<close>

text \<open>
  \<^verbatim>\<open>function midiToFreq(m) { return 440 * Math.pow(2, (m - 69) / 12); }\<close>
  Arithmetic on \<open>NaN\<close> gives \<open>NaN\<close>.
\<close>

fun midiToFreq :: "number \<Rightarrow> number" where
  "midiToFreq NaN = NaN"
| "midiToFreq (Num m) = Num (440 * 2 powr ((m - 69) / 12))"

section \<open>The Web Audio graph\<close>

subsection \<open>Audio parameters\<close>

text \<open>
  The value passed to \<^verbatim>\<open>setValueAtTime\<close> and the target passed to
  \<^verbatim>\<open>exponentialRampToValueAtTime\<close> are converted to a single-precision number:
  the conversion throws \<open>TypeError\<close> on \<open>NaN\<close> and on a number that rounds to
  \<open>2 ^ 128\<close> or beyond, that is from \<open>2 ^ 128 - 2 ^ 103\<close> on. The largest
  single-precision number is \<open>2 ^ 128 - 2 ^ 104\<close>. Within the range numbers are kept as
  reals: the rounding of the mantissa is not modelled.
\<close>

definition in_float_range :: "real \<Rightarrow> bool" where
  "in_float_range x = (\<bar>x\<bar> < 2 ^ 128 - 2 ^ 103)"

definition max_float :: real where
  "max_float = 2 ^ 128 - 2 ^ 104"

definition to_single :: "real \<Rightarrow> real" where
  "to_single x = max (- max_float) (min max_float x)"

text \<open>
  An \<open>AudioParam\<close> holds the value the rendering thread computed last and its
  automation timeline, ordered by time. The \<^verbatim>\<open>value\<close> attribute reads the computed
  value as a single-precision number. After the conversion of their first argument,
  the scheduling methods throw \<open>RangeError\<close> on a negative time, and
  \<^verbatim>\<open>exponentialRampToValueAtTime\<close> also on the target 0.
\<close>

datatype event = SetValue real real | ExpRamp real real

fun ev_time :: "event \<Rightarrow> real" where
  "ev_time (SetValue v t) = t"
| "ev_time (ExpRamp v t) = t"

record audio_param =
  p_slot :: real
  p_events :: "event list"

definition p_value :: "audio_param \<Rightarrow> real" where
  "p_value p = to_single (p_slot p)"

definition insert_event :: "event \<Rightarrow> event list \<Rightarrow> event list" where
  "insert_event e es =
     takeWhile (\<lambda>x. ev_time x \<le> ev_time e) es @ e # dropWhile (\<lambda>x. ev_time x \<le> ev_time e) es"

definition setValueAtTime :: "number \<Rightarrow> real \<Rightarrow> audio_param \<Rightarrow> js_error + audio_param" where
  "setValueAtTime v t p =
     (case v of
        NaN \<Rightarrow> Inl TypeError
      | Num x \<Rightarrow>
          if \<not> in_float_range x then Inl TypeError
          else if t < 0 then Inl RangeError
          else Inr (p\<lparr>p_events := insert_event (SetValue x t) (p_events p)\<rparr>))"

definition exponentialRampToValueAtTime ::
    "real \<Rightarrow> real \<Rightarrow> audio_param \<Rightarrow> js_error + audio_param" where
  "exponentialRampToValueAtTime v t p =
     (if \<not> in_float_range v then Inl TypeError
      else if v = 0 \<or> t < 0 then Inl RangeError
      else Inr (p\<lparr>p_events := insert_event (ExpRamp v t) (p_events p)\<rparr>))"

definition cancelScheduledValues :: "real \<Rightarrow> audio_param \<Rightarrow> js_error + audio_param" where
  "cancelScheduledValues t p =
     (if t < 0 then Inl RangeError
      else Inr (p\<lparr>p_events := filter (\<lambda>e. ev_time e < t) (p_events p)\<rparr>))"

text \<open>
  The value of a timeline at time \<open>t\<close>, from the value \<open>v0\<close> reached at time \<open>t0\<close>:
  an event in the past sets the value; a pending exponential ramp is at
  \<open>v0 * (v / v0) ^ ((t - t0) / (te - t0))\<close>, and holds \<open>v0\<close> when the two values do not
  have the same sign.
\<close>

fun timeline_value :: "real \<Rightarrow> real \<Rightarrow> real \<Rightarrow> event list \<Rightarrow> real" where
  "timeline_value v0 t0 t [] = v0"
| "timeline_value v0 t0 t (SetValue v te # es) =
     (if te \<le> t then timeline_value v te t es else v0)"
| "timeline_value v0 t0 t (ExpRamp v te # es) =
     (if te \<le> t then timeline_value v te t es
      else if v0 * v \<le> 0 then v0
      else v0 * (v / v0) powr ((t - t0) / (te - t0)))"

definition render_param :: "real \<Rightarrow> audio_param \<Rightarrow> audio_param" where
  "render_param t p = p\<lparr>p_slot := timeline_value (p_slot p) 0 t (p_events p)\<rparr>"

subsection \<open>Nodes\<close>

text \<open>
  Nodes are objects on the heap: an oscillator or a gain node is named by its address,
  and the two stores give the object at each address. \<open>next_node\<close> is the first address
  not yet handed out.
\<close>

datatype dest = GainNode nat | MasterGain

record oscillator =
  osc_type :: string
  osc_frequency :: audio_param
  osc_started :: "real option"
  osc_stopped :: "real option"
  osc_out :: "dest set"

record gain_node =
  gain_gain :: audio_param
  gain_out :: "dest set"

definition new_oscillator :: oscillator where
  "new_oscillator =
     \<lparr>osc_type = ''sine'', osc_frequency = \<lparr>p_slot = 440, p_events = []\<rparr>,
      osc_started = None, osc_stopped = None, osc_out = {}\<rparr>"

definition new_gain :: gain_node where
  "new_gain = \<lparr>gain_gain = \<lparr>p_slot = 1, p_events = []\<rparr>, gain_out = {}\<rparr>"

section \<open>The page and the engine state\<close>

text \<open>
  A key element carries \<^verbatim>\<open>dataset.midi\<close> (\<open>None\<close> when the attribute is missing) and
  whether its class list holds \<^verbatim>\<open>"active"\<close>. \<open>waveSelect\<close> is \<open>None\<close> when the page
  has no such element, and its value otherwise. A voice is the pair of node addresses
  stored in \<^verbatim>\<open>activeVoices\<close>, a map keyed by the identity of the key element. A
  pending timer is the closure passed to \<^verbatim>\<open>setTimeout\<close>: its due time on the event
  loop's clock (milliseconds) and the two nodes it captured.
\<close>

record element =
  dataset_midi :: "string option"
  class_active :: bool

record voice =
  v_osc :: nat
  v_gain :: nat

record timer =
  t_due :: real
  t_osc :: nat
  t_gain :: nat

datatype ctx_state = Suspended | Running | Closed

record adsr =
  attack :: real
  decay :: real
  sustain :: real
  release :: real

definition ADSR :: adsr where
  "ADSR = \<lparr>attack = 0.01, decay = 0.12, sustain = 0.75, release = 0.25\<rparr>"

record engine =
  currentTime :: real
  audio_state :: ctx_state
  keyEls :: "nat \<Rightarrow> element"
  waveSelect :: "string option"
  oscs :: "nat \<Rightarrow> oscillator"
  gains :: "nat \<Rightarrow> gain_node"
  next_node :: nat
  activeVoices :: "nat \<rightharpoonup> voice"
  clock_ms :: real
  timers :: "timer list"

subsection \<open>Calls into the audio context\<close>

text \<open>
  \<^verbatim>\<open>audioCtx.resume()\<close> restarts a context that is not closed; the promise it
  returns is dropped by the source, and its settling is folded into the call.
\<close>

definition resume :: "engine \<Rightarrow> engine" where
  "resume s = (if audio_state s = Closed then s else s\<lparr>audio_state := Running\<rparr>)"

definition createOscillator :: "engine \<Rightarrow> nat \<times> engine" where
  "createOscillator s =
     (next_node s,
      s\<lparr>oscs := (oscs s)(next_node s := new_oscillator), next_node := Suc (next_node s)\<rparr>)"

definition createGain :: "engine \<Rightarrow> nat \<times> engine" where
  "createGain s =
     (next_node s,
      s\<lparr>gains := (gains s)(next_node s := new_gain), next_node := Suc (next_node s)\<rparr>)"

definition upd_osc :: "nat \<Rightarrow> (oscillator \<Rightarrow> oscillator) \<Rightarrow> engine \<Rightarrow> engine" where
  "upd_osc a f s = s\<lparr>oscs := (oscs s)(a := f (oscs s a))\<rparr>"

definition upd_gain :: "nat \<Rightarrow> (gain_node \<Rightarrow> gain_node) \<Rightarrow> engine \<Rightarrow> engine" where
  "upd_gain a f s = s\<lparr>gains := (gains s)(a := f (gains s a))\<rparr>"

text \<open>A scheduling call on \<^verbatim>\<open>osc.frequency\<close> or \<^verbatim>\<open>gain.gain\<close>.\<close>

definition on_frequency ::
    "nat \<Rightarrow> (audio_param \<Rightarrow> js_error + audio_param) \<Rightarrow> engine \<Rightarrow> js_error + engine" where
  "on_frequency a m s =
     (case m (osc_frequency (oscs s a)) of
        Inl e \<Rightarrow> Inl e
      | Inr p \<Rightarrow> Inr (upd_osc a (\<lambda>n. n\<lparr>osc_frequency := p\<rparr>) s))"

definition on_gain ::
    "nat \<Rightarrow> (audio_param \<Rightarrow> js_error + audio_param) \<Rightarrow> engine \<Rightarrow> js_error + engine" where
  "on_gain a m s =
     (case m (gain_gain (gains s a)) of
        Inl e \<Rightarrow> Inl e
      | Inr p \<Rightarrow> Inr (upd_gain a (\<lambda>n. n\<lparr>gain_gain := p\<rparr>) s))"

text \<open>
  Assigning \<^verbatim>\<open>osc.type\<close>: one of the four wave names is stored, \<^verbatim>\<open>"custom"\<close> throws
  \<open>InvalidStateError\<close>, and any other string is ignored.
\<close>

definition valid_wave :: "string \<Rightarrow> bool" where
  "valid_wave w = (w \<in> set [''sine'', ''square'', ''sawtooth'', ''triangle''])"

definition set_type :: "nat \<Rightarrow> string \<Rightarrow> engine \<Rightarrow> js_error + engine" where
  "set_type a w s =
     (if w = ''custom'' then Inl InvalidStateError
      else if valid_wave w then Inr (upd_osc a (\<lambda>n. n\<lparr>osc_type := w\<rparr>) s)
      else Inr s)"

definition osc_connect :: "nat \<Rightarrow> dest \<Rightarrow> engine \<Rightarrow> engine" where
  "osc_connect a d s = upd_osc a (\<lambda>n. n\<lparr>osc_out := insert d (osc_out n)\<rparr>) s"

definition gain_connect :: "nat \<Rightarrow> dest \<Rightarrow> engine \<Rightarrow> engine" where
  "gain_connect a d s = upd_gain a (\<lambda>n. n\<lparr>gain_out := insert d (gain_out n)\<rparr>) s"

text \<open>
  \<^verbatim>\<open>osc.start(when)\<close> throws \<open>InvalidStateError\<close> on an oscillator already started,
  \<^verbatim>\<open>osc.stop(when)\<close> on one never started; both throw \<open>RangeError\<close> on a negative
  time. \<^verbatim>\<open>disconnect()\<close> removes every outgoing connection.
\<close>

definition osc_start :: "nat \<Rightarrow> real \<Rightarrow> engine \<Rightarrow> js_error + engine" where
  "osc_start a t s =
     (if t < 0 then Inl RangeError
      else if osc_started (oscs s a) \<noteq> None then Inl InvalidStateError
      else Inr (upd_osc a (\<lambda>n. n\<lparr>osc_started := Some t\<rparr>) s))"

definition osc_stop :: "nat \<Rightarrow> real \<Rightarrow> engine \<Rightarrow> js_error + engine" where
  "osc_stop a t s =
     (if t < 0 then Inl RangeError
      else if osc_started (oscs s a) = None then Inl InvalidStateError
      else Inr (upd_osc a (\<lambda>n. n\<lparr>osc_stopped := Some t\<rparr>) s))"

definition osc_disconnect :: "nat \<Rightarrow> engine \<Rightarrow> js_error + engine" where
  "osc_disconnect a s = Inr (upd_osc a (\<lambda>n. n\<lparr>osc_out := {}\<rparr>) s)"

definition gain_disconnect :: "nat \<Rightarrow> engine \<Rightarrow> js_error + engine" where
  "gain_disconnect a s = Inr (upd_gain a (\<lambda>n. n\<lparr>gain_out := {}\<rparr>) s)"

subsection \<open>Calls into the page and the event loop\<close>

definition classList_add :: "nat \<Rightarrow> engine \<Rightarrow> engine" where
  "classList_add k s = s\<lparr>keyEls := (keyEls s)(k := (keyEls s k)\<lparr>class_active := True\<rparr>)\<rparr>"

definition classList_remove :: "nat \<Rightarrow> engine \<Rightarrow> engine" where
  "classList_remove k s = s\<lparr>keyEls := (keyEls s)(k := (keyEls s k)\<lparr>class_active := False\<rparr>)\<rparr>"

definition setTimeout :: "nat \<Rightarrow> nat \<Rightarrow> real \<Rightarrow> engine \<Rightarrow> engine" where
  "setTimeout osc gain delay s =
     s\<lparr>timers := timers s @ [\<lparr>t_due = clock_ms s + delay, t_osc = osc, t_gain = gain\<rparr>]\<rparr>"

section \<open>The voice engine\<close>

text \<open>
  \<^verbatim>\<open>oscillatorsAttach\<close> has an empty body in the source.
\<close>

definition oscillatorsAttach :: "nat \<Rightarrow> nat \<Rightarrow> engine \<Rightarrow> engine" where
  "oscillatorsAttach osc gain s = s"

text \<open>
  \<^verbatim>\<open>(waveSelect && waveSelect.value) ? waveSelect.value : "triangle"\<close>
\<close>

definition selected_wave :: "engine \<Rightarrow> string" where
  "selected_wave s =
     (case waveSelect s of
        None \<Rightarrow> ''triangle''
      | Some w \<Rightarrow> if w = [] then ''triangle'' else w)"

text \<open>
  \<^verbatim>\<open>startNoteForElement(keyEl)\<close>, lines 137-166. The key is \<open>None\<close> for
  \<^verbatim>\<open>null\<close>; the envelope parameters are an argument, \<open>ADSR\<close> being the source's.
\<close>

definition startNoteForElement :: "adsr \<Rightarrow> engine \<Rightarrow> nat option \<Rightarrow> js_error + engine" where
  "startNoteForElement cfg s0 keyEl =
     (case keyEl of
        None \<Rightarrow> Inr s0
      | Some k \<Rightarrow>
          (case dataset_midi (keyEls s0 k) of
             None \<Rightarrow> Inr s0
           | Some str \<Rightarrow>
               if str = [] then Inr s0
               else
                 let s1 = (if audio_state s0 = Suspended then resume s0 else s0);
                     midi = parseInt str
                 in if activeVoices s1 k \<noteq> None then Inr s1
                    else
                      let freq = midiToFreq midi;
                          (osc, s2) = createOscillator s1;
                          (gain, s3) = createGain s2;
                          s4 = oscillatorsAttach osc gain s3
                      in bindE (on_frequency osc (setValueAtTime freq (currentTime s4)) s4) (\<lambda>s5.
                         bindE (set_type osc (selected_wave s5) s5) (\<lambda>s6.
                         let now = currentTime s6
                         in bindE (on_gain gain (setValueAtTime (Num 0.0001) now) s6) (\<lambda>s7.
                            bindE (on_gain gain
                                     (exponentialRampToValueAtTime 1.0 (now + attack cfg)) s7) (\<lambda>s8.
                            bindE (on_gain gain
                                     (exponentialRampToValueAtTime (max 0.0001 (sustain cfg))
                                        (now + attack cfg + decay cfg)) s8) (\<lambda>s9.
                            bindE (osc_start osc now
                                     (gain_connect gain MasterGain
                                        (osc_connect osc (GainNode gain) s9))) (\<lambda>s10.
                            Inr (classList_add k
                                   (s10\<lparr>activeVoices :=
                                          (activeVoices s10)(k \<mapsto> \<lparr>v_osc = osc, v_gain = gain\<rparr>)\<rparr>))))))))))"

text \<open>
  The closure passed to \<^verbatim>\<open>setTimeout\<close> at lines 183-185:
  \<^verbatim>\<open>try { osc.disconnect(); gain.disconnect(); } catch (e) {}\<close>
\<close>

definition timeoutCallback :: "nat \<Rightarrow> nat \<Rightarrow> engine \<Rightarrow> js_error + engine" where
  "timeoutCallback osc gain s =
     (case osc_disconnect osc s of
        Inl e \<Rightarrow> Inr s
      | Inr s1 \<Rightarrow>
          (case gain_disconnect gain s1 of
             Inl e \<Rightarrow> Inr s1
           | Inr s2 \<Rightarrow> Inr s2))"

text \<open>
  \<^verbatim>\<open>stopNoteForElement(keyEl)\<close>, lines 168-188. Only \<^verbatim>\<open>osc.stop\<close> stands in a
  \<^verbatim>\<open>try\<close> block.
\<close>

definition stopNoteForElement :: "adsr \<Rightarrow> engine \<Rightarrow> nat option \<Rightarrow> js_error + engine" where
  "stopNoteForElement cfg s keyEl =
     (case keyEl of
        None \<Rightarrow> Inr s
      | Some k \<Rightarrow>
          (case activeVoices s k of
             None \<Rightarrow> Inr (classList_remove k s)
           | Some v \<Rightarrow>
               let gain = v_gain v; osc = v_osc v; now = currentTime s
               in bindE (on_gain gain (cancelScheduledValues now) s) (\<lambda>s1.
                  bindE (on_gain gain
                           (setValueAtTime (Num (p_value (gain_gain (gains s1 gain)))) now) s1) (\<lambda>s2.
                  bindE (on_gain gain
                           (exponentialRampToValueAtTime 0.0001 (now + release cfg)) s2) (\<lambda>s3.
                  let s4 = (case osc_stop osc (now + release cfg + 0.02) s3 of
                              Inl e \<Rightarrow> s3
                            | Inr s' \<Rightarrow> s');
                      s5 = setTimeout osc gain ((release cfg + 0.1) * 1000) s4;
                      s6 = s5\<lparr>activeVoices := (activeVoices s5)(k := None)\<rparr>
                  in Inr (classList_remove k s6))))))"

section \<open>Time\<close>

text \<open>
  \<open>elapse d\<close> lets \<open>d\<close> seconds pass. The event loop's clock always advances; the audio
  clock advances, and the rendering thread brings every parameter to its timeline's
  value, while the context is running. Then the timers that are due run in the order
  they were set; an exception a callback lets out would end that callback only.
\<close>

definition render :: "engine \<Rightarrow> engine" where
  "render s =
     s\<lparr>oscs := (\<lambda>a. (oscs s a)\<lparr>osc_frequency :=
                        render_param (currentTime s) (osc_frequency (oscs s a))\<rparr>),
       gains := (\<lambda>a. (gains s a)\<lparr>gain_gain :=
                        render_param (currentTime s) (gain_gain (gains s a))\<rparr>)\<rparr>"

fun run_timers :: "timer list \<Rightarrow> engine \<Rightarrow> engine" where
  "run_timers [] s = s"
| "run_timers (t # ts) s =
     run_timers ts
       (case timeoutCallback (t_osc t) (t_gain t) s of Inl e \<Rightarrow> s | Inr s' \<Rightarrow> s')"

definition elapse :: "real \<Rightarrow> engine \<Rightarrow> engine" where
  "elapse d s =
     (let s1 = s\<lparr>clock_ms := clock_ms s + d * 1000\<rparr>;
          s2 = (if audio_state s1 = Running
                then render (s1\<lparr>currentTime := currentTime s1 + d\<rparr>) else s1);
          due = filter (\<lambda>t. t_due t \<le> clock_ms s2) (timers s2)
      in run_timers due (s2\<lparr>timers := filter (\<lambda>t. \<not> t_due t \<le> clock_ms s2) (timers s2)\<rparr>))"

subsection \<open>Sequences of calls\<close>

text \<open>
  The event loop makes one call after the other: a pointer handler calls
  \<^verbatim>\<open>startNoteForElement\<close> or \<^verbatim>\<open>stopNoteForElement\<close>, and time passes in between.
  \<open>run\<close> stops at the first exception that leaves a call.
\<close>

datatype call = NoteOn "nat option" | NoteOff "nat option" | Elapse real

fun run :: "adsr \<Rightarrow> engine \<Rightarrow> call list \<Rightarrow> js_error + engine" where
  "run cfg s [] = Inr s"
| "run cfg s (NoteOn k # cs) = bindE (startNoteForElement cfg s k) (\<lambda>s'. run cfg s' cs)"
| "run cfg s (NoteOff k # cs) = bindE (stopNoteForElement cfg s k) (\<lambda>s'. run cfg s' cs)"
| "run cfg s (Elapse d # cs) = run cfg (elapse d s) cs"

subsection \<open>States the engine can be in\<close>

text \<open>
  Every node a voice or a pending timer refers to has been created.
\<close>

definition allocated :: "engine \<Rightarrow> bool" where
  "allocated s =
     ((\<forall>k v. activeVoices s k = Some v \<longrightarrow> v_osc v < next_node s \<and> v_gain v < next_node s) \<and>
      (\<forall>t \<in> set (timers s). t_osc t < next_node s \<and> t_gain t < next_node s))"

text \<open>The page as loaded: no node, no voice, no timer, the context suspended.\<close>

definition init :: "(nat \<Rightarrow> element) \<Rightarrow> string option \<Rightarrow> engine" where
  "init els w =
     \<lparr>currentTime = 0, audio_state = Suspended, keyEls = els, waveSelect = w,
      oscs = (\<lambda>a. new_oscillator), gains = (\<lambda>a. new_gain), next_node = 0,
      activeVoices = Map.empty, clock_ms = 0, timers = []\<rparr>"

text \<open>
  A voice sounds when its oscillator has started and not yet stopped, feeds the voice's
  gain node, and that gain node feeds the master gain.
\<close>

definition sounding :: "engine \<Rightarrow> voice \<Rightarrow> bool" where
  "sounding s v =
     ((case osc_started (oscs s (v_osc v)) of None \<Rightarrow> False | Some t \<Rightarrow> t \<le> currentTime s) \<and>
      (case osc_stopped (oscs s (v_osc v)) of None \<Rightarrow> True | Some t \<Rightarrow> currentTime s < t) \<and>
      GainNode (v_gain v) \<in> osc_out (oscs s (v_osc v)) \<and>
      MasterGain \<in> gain_out (gains s (v_gain v)))"

definition sounding_after :: "js_error + engine \<Rightarrow> voice \<Rightarrow> bool" where
  "sounding_after r v = (case r of Inl e \<Rightarrow> False | Inr s \<Rightarrow> sounding s v)"

text \<open>
  Pages for the examples: on \<open>page\<close> every key element carries the number 60 and the
  wave selector shows the triangle; on \<open>bare_page\<close> there is no wave selector; on
  \<open>far_page\<close> the key elements carry the number 1500, as \<^verbatim>\<open>renderKeys\<close> writes it for
  the base octave 124.
\<close>

definition key60 :: "nat \<Rightarrow> element" where
  "key60 k = \<lparr>dataset_midi = Some ''60'', class_active = False\<rparr>"

definition page :: engine where
  "page = init key60 (Some ''triangle'')"

definition bare_page :: engine where
  "bare_page = init key60 None"

definition far_page :: engine where
  "far_page = init (\<lambda>k. \<lparr>dataset_midi = Some ''1500'', class_active = False\<rparr>) (Some ''triangle'')"

section \<open>Properties\<close>

subsection \<open>Auxiliary facts\<close>

lemmas api_defs = bindE_def on_frequency_def on_gain_def osc_connect_def gain_connect_def
  osc_start_def osc_stop_def osc_disconnect_def gain_disconnect_def classList_add_def
  classList_remove_def setTimeout_def upd_osc_def upd_gain_def createOscillator_def
  createGain_def resume_def setValueAtTime_def exponentialRampToValueAtTime_def
  cancelScheduledValues_def oscillatorsAttach_def new_oscillator_def new_gain_def

lemma parseInt_60: "parseInt ''60'' = Num 60"
  by (simp add: parseInt_def is_space_def is_digit_def digit_val_def)

lemma parseInt_1500: "parseInt ''1500'' = Num 1500"
  by (simp add: parseInt_def is_space_def is_digit_def digit_val_def)

text \<open>Single-precision numbers: what the \<^verbatim>\<open>value\<close> attribute reads is in range.\<close>

lemma to_single_bounds: "\<bar>to_single x\<bar> \<le> max_float"
  by (simp add: to_single_def max_float_def abs_le_iff max_def min_def)

lemma to_single_id: "\<bar>x\<bar> \<le> max_float \<Longrightarrow> to_single x = x"
  by (simp add: to_single_def abs_le_iff max_def min_def)

lemma p_value_in_range: "in_float_range (p_value p)"
proof -
  have "\<bar>p_value p\<bar> \<le> max_float" by (simp add: p_value_def to_single_bounds)
  moreover have "max_float < 2 ^ 128 - 2 ^ 103" by (simp add: max_float_def)
  ultimately show ?thesis by (simp add: in_float_range_def)
qed

lemma p_value_events: "p_value (p\<lparr>p_events := es\<rparr>) = p_value p"
  by (simp add: p_value_def)

lemma floor_in_range: "in_float_range (1 / 10000)" "in_float_range 1"
  by (simp_all add: in_float_range_def)

text \<open>Key numbers up to 1499 have a frequency in range; from 1500 on it is out of range.\<close>

lemma key_in_float_range:
  assumes "m \<le> 1499"
  shows "in_float_range (440 * 2 powr ((m - 69) / 12))"
proof -
  have six: "(2::real) powr (1 / 6) < 113 / 100"
  proof -
    have "((2::real) powr (1 / 6)) ^ 6 = 2 powr ((1 / 6) * 6)"
      by (simp add: powr_powr flip: powr_numeral)
    then have "((2::real) powr (1 / 6)) ^ 6 = 2" by simp
    also have "\<dots> < (113 / 100) ^ 6" by (simp add: power_def)
    finally show ?thesis by (rule power_less_imp_less_base) simp
  qed
  have "(m - 69) / 12 \<le> 119 + 1 / 6" using assms by simp
  then have "(2::real) powr ((m - 69) / 12) \<le> 2 powr (119 + 1 / 6)"
    by (simp add: powr_mono)
  also have "\<dots> = 2 powr 119 * 2 powr (1 / 6)"
    by (rule powr_add)
  also have "\<dots> = 2 ^ 119 * 2 powr (1 / 6)"
    by simp
  also have "\<dots> < 2 ^ 119 * (113 / 100)" using six by simp
  finally have "440 * (2::real) powr ((m - 69) / 12) < 440 * (2 ^ 119 * (113 / 100))" by simp
  also have "\<dots> < 2 ^ 128 - 2 ^ 103" by simp
  finally have "440 * (2::real) powr ((m - 69) / 12) < 2 ^ 128 - 2 ^ 103" .
  moreover have "0 \<le> 440 * (2::real) powr ((m - 69) / 12)" by simp
  ultimately show ?thesis by (simp add: in_float_range_def)
qed

lemma key60_in_float_range: "in_float_range (440 * 2 powr ((60 - 69) / 12))"
  by (rule key_in_float_range) simp

lemma freq60_in_float_range: "in_float_range (440 * 2 powr - (3 / 4))"
  using key60_in_float_range by simp

lemma sustain_in_float_range: "in_float_range (3 / 4)"
  by (simp add: in_float_range_def)

lemma ADSR_sustain_in_float_range: "in_float_range (max 0.0001 (sustain ADSR))"
  by (simp add: ADSR_def in_float_range_def)

lemmas page_fits = conjI[OF key60_in_float_range ADSR_sustain_in_float_range]

lemma key_out_of_float_range:
  assumes "1500 \<le> m"
  shows "\<not> in_float_range (440 * 2 powr ((m - 69) / 12))"
proof -
  have four: "118 / 100 < (2::real) powr (1 / 4)"
  proof -
    have "((2::real) powr (1 / 4)) ^ 4 = 2 powr ((1 / 4) * 4)"
      by (simp add: powr_powr flip: powr_numeral)
    then have "((2::real) powr (1 / 4)) ^ 4 = 2" by simp
    then have "(118 / 100 :: real) ^ 4 < ((2::real) powr (1 / 4)) ^ 4" by (simp add: power_def)
    then show ?thesis by (rule power_less_imp_less_base) simp
  qed
  have "119 + 1 / 4 \<le> (m - 69) / 12" using assms by simp
  then have A: "(2::real) powr (119 + 1 / 4) \<le> 2 powr ((m - 69) / 12)"
    by (intro powr_mono) simp_all
  have B: "(2::real) powr (119 + 1 / 4) = 2 powr 119 * 2 powr (1 / 4)"
    by (rule powr_add)
  have C: "(2::real) powr 119 = 2 ^ 119" by simp
  have "(2::real) ^ 119 * (118 / 100) < 2 ^ 119 * 2 powr (1 / 4)" using four by simp
  then have "(2::real) ^ 119 * (118 / 100) < 2 powr 119 * 2 powr (1 / 4)" by (simp only: C)
  also have "\<dots> = 2 powr (119 + 1 / 4)" by (rule B[symmetric])
  also have "\<dots> \<le> 2 powr ((m - 69) / 12)" by (rule A)
  finally have E: "(2::real) ^ 119 * (118 / 100) < 2 powr ((m - 69) / 12)" .
  have "(2::real) ^ 128 - 2 ^ 103 < 440 * (2 ^ 119 * (118 / 100))" by simp
  also have "\<dots> < 440 * 2 powr ((m - 69) / 12)"
    using E by (intro mult_strict_left_mono) simp_all
  finally have "(2::real) ^ 128 - 2 ^ 103 < 440 * 2 powr ((m - 69) / 12)" .
  then show ?thesis by (simp add: in_float_range_def)
qed

lemma set_type_ok:
  "w \<noteq> ''custom'' \<Longrightarrow>
   set_type a w s = Inr (if valid_wave w then upd_osc a (\<lambda>n. n\<lparr>osc_type := w\<rparr>) s else s)"
  by (simp add: set_type_def)

lemma max_floor_nonzero: "max (1 / 10000) (x::real) \<noteq> 0"
  by (simp add: max_def)

text \<open>Note-on on \<^verbatim>\<open>null\<close>, on a key without number, and on a key that has a voice.\<close>

lemma start_null: "startNoteForElement cfg s None = Inr s"
  by (simp add: startNoteForElement_def)

lemma start_missing:
  "dataset_midi (keyEls s k) = None \<or> dataset_midi (keyEls s k) = Some [] \<Longrightarrow>
   startNoteForElement cfg s (Some k) = Inr s"
  by (auto simp: startNoteForElement_def)

lemma start_registered:
  "dataset_midi (keyEls s k) = Some str \<Longrightarrow> str \<noteq> [] \<Longrightarrow> activeVoices s k = Some v \<Longrightarrow>
   startNoteForElement cfg s (Some k) =
     Inr (if audio_state s = Suspended then s\<lparr>audio_state := Running\<rparr> else s)"
  by (simp add: startNoteForElement_def Let_def resume_def)

text \<open>Note-on that creates a voice: the state it returns, field by field.\<close>

lemma start_new_eq:
  assumes "dataset_midi (keyEls s k) = Some str" "str \<noteq> []" "parseInt str = Num m"
    "activeVoices s k = None" "selected_wave s \<noteq> ''custom''"
    "0 \<le> currentTime s" "0 \<le> currentTime s + attack cfg"
    "0 \<le> currentTime s + attack cfg + decay cfg"
    "in_float_range (440 * 2 powr ((m - 69) / 12)) \<and>
      in_float_range (max 0.0001 (sustain cfg))"
  shows "startNoteForElement cfg s (Some k) = Inr
   \<lparr>currentTime = currentTime s,
    audio_state = (if audio_state s = Suspended then Running else audio_state s),
    keyEls = (keyEls s)(k := (keyEls s k)\<lparr>class_active := True\<rparr>),
    waveSelect = waveSelect s,
    oscs = (oscs s)(next_node s :=
        \<lparr>osc_type = (if valid_wave (selected_wave s) then selected_wave s else ''sine''),
         osc_frequency = \<lparr>p_slot = 440, p_events =
           insert_event (SetValue (440 * 2 powr ((m - 69) / 12)) (currentTime s)) []\<rparr>,
         osc_started = Some (currentTime s), osc_stopped = None,
         osc_out = {GainNode (Suc (next_node s))}\<rparr>),
    gains = (gains s)(Suc (next_node s) :=
        \<lparr>gain_gain = \<lparr>p_slot = 1, p_events =
           insert_event (ExpRamp (max 0.0001 (sustain cfg)) (currentTime s + attack cfg + decay cfg))
             (insert_event (ExpRamp 1 (currentTime s + attack cfg))
               (insert_event (SetValue 0.0001 (currentTime s)) []))\<rparr>,
         gain_out = {MasterGain}\<rparr>),
    next_node = Suc (Suc (next_node s)),
    activeVoices = (activeVoices s)(k \<mapsto> \<lparr>v_osc = next_node s, v_gain = Suc (next_node s)\<rparr>),
    clock_ms = clock_ms s,
    timers = timers s\<rparr>"
  using assms
  by (simp add: startNoteForElement_def Let_def api_defs set_type_ok max_floor_nonzero
      selected_wave_def floor_in_range)

text \<open>Note-off on \<^verbatim>\<open>null\<close>, on a key without voice, and on a key with a voice.\<close>

lemma stop_null: "stopNoteForElement cfg s None = Inr s"
  by (simp add: stopNoteForElement_def)

lemma stop_absent:
  "activeVoices s k = None \<Longrightarrow> stopNoteForElement cfg s (Some k) = Inr (classList_remove k s)"
  by (simp add: stopNoteForElement_def)

lemma stop_active_eq:
  assumes "activeVoices s k = Some v" "0 \<le> currentTime s" "0 \<le> currentTime s + release cfg"
  shows "stopNoteForElement cfg s (Some k) = Inr
   \<lparr>currentTime = currentTime s,
    audio_state = audio_state s,
    keyEls = (keyEls s)(k := (keyEls s k)\<lparr>class_active := False\<rparr>),
    waveSelect = waveSelect s,
    oscs = (if osc_started (oscs s (v_osc v)) = None then oscs s
            else (oscs s)(v_osc v := (oscs s (v_osc v))
                   \<lparr>osc_stopped := Some (currentTime s + release cfg + 0.02)\<rparr>)),
    gains = (gains s)(v_gain v := (gains s (v_gain v))
       \<lparr>gain_gain := (gain_gain (gains s (v_gain v)))\<lparr>p_events :=
          insert_event (ExpRamp 0.0001 (currentTime s + release cfg))
            (insert_event (SetValue (p_value (gain_gain (gains s (v_gain v)))) (currentTime s))
               (filter (\<lambda>e. ev_time e < currentTime s)
                  (p_events (gain_gain (gains s (v_gain v))))))\<rparr>\<rparr>),
    next_node = next_node s,
    activeVoices = (activeVoices s)(k := None),
    clock_ms = clock_ms s,
    timers = timers s @
      [\<lparr>t_due = clock_ms s + (release cfg + 0.1) * 1000, t_osc = v_osc v, t_gain = v_gain v\<rparr>]\<rparr>"
  using assms
  by (simp add: stopNoteForElement_def Let_def api_defs p_value_in_range p_value_events
      floor_in_range)

text \<open>When note-on of a key at rest returns, its calls into the audio graph succeeded.\<close>

lemma start_new_inv:
  assumes "startNoteForElement cfg s (Some k) = Inr s'"
    "dataset_midi (keyEls s k) = Some str" "str \<noteq> []" "activeVoices s k = None"
  shows "\<exists>m. parseInt str = Num m \<and> selected_wave s \<noteq> ''custom'' \<and> 0 \<le> currentTime s \<and>
    0 \<le> currentTime s + attack cfg \<and> 0 \<le> currentTime s + attack cfg + decay cfg \<and>
    in_float_range (440 * 2 powr ((m - 69) / 12)) \<and>
      in_float_range (max 0.0001 (sustain cfg))"
  using assms
  by (cases "parseInt str")
     (auto simp add: startNoteForElement_def Let_def api_defs set_type_def max_floor_nonzero
      selected_wave_def split: if_splits)

text \<open>Events are kept in time order; a new event goes behind those of its own time.\<close>

lemma insert_event_last:
  "\<forall>x \<in> set es. ev_time x \<le> ev_time e \<Longrightarrow> insert_event e es = es @ [e]"
  by (simp add: insert_event_def)

lemma set_insert_event: "set (insert_event e es) = insert e (set es)"
proof -
  have "set (takeWhile (\<lambda>x. ev_time x \<le> ev_time e) es) \<union>
        set (dropWhile (\<lambda>x. ev_time x \<le> ev_time e) es) = set es"
    by (metis set_append takeWhile_dropWhile_id)
  then show ?thesis by (simp add: insert_event_def)
qed

text \<open>What the timers and the passing of time leave alone.\<close>

lemma timeoutCallback_eq:
  "timeoutCallback osc gain s =
     Inr (s\<lparr>oscs := (oscs s)(osc := (oscs s osc)\<lparr>osc_out := {}\<rparr>),
            gains := (gains s)(gain := (gains s gain)\<lparr>gain_out := {}\<rparr>)\<rparr>)"
  by (simp add: timeoutCallback_def osc_disconnect_def gain_disconnect_def upd_osc_def upd_gain_def)

lemma run_timers_frame:
  "activeVoices (run_timers ts s) = activeVoices s \<and> next_node (run_timers ts s) = next_node s \<and>
   timers (run_timers ts s) = timers s \<and> currentTime (run_timers ts s) = currentTime s \<and>
   clock_ms (run_timers ts s) = clock_ms s \<and> keyEls (run_timers ts s) = keyEls s \<and>
   audio_state (run_timers ts s) = audio_state s \<and> waveSelect (run_timers ts s) = waveSelect s"
  by (induction ts arbitrary: s) (simp_all add: timeoutCallback_eq)

lemma run_timers_oscs:
  "oscs (run_timers ts s) a =
     (if a \<in> t_osc ` set ts then (oscs s a)\<lparr>osc_out := {}\<rparr> else oscs s a)"
  by (induction ts arbitrary: s) (simp_all add: timeoutCallback_eq)

lemma run_timers_gains:
  "gains (run_timers ts s) a =
     (if a \<in> t_gain ` set ts then (gains s a)\<lparr>gain_out := {}\<rparr> else gains s a)"
  by (induction ts arbitrary: s) (simp_all add: timeoutCallback_eq)

lemma elapse_frame:
  "activeVoices (elapse d s) = activeVoices s \<and> next_node (elapse d s) = next_node s \<and>
   keyEls (elapse d s) = keyEls s \<and> audio_state (elapse d s) = audio_state s \<and>
   waveSelect (elapse d s) = waveSelect s \<and> clock_ms (elapse d s) = clock_ms s + d * 1000 \<and>
   currentTime (elapse d s) = (if audio_state s = Running then currentTime s + d else currentTime s) \<and>
   timers (elapse d s) = filter (\<lambda>t. \<not> t_due t \<le> clock_ms s + d * 1000) (timers s)"
  by (simp add: elapse_def Let_def run_timers_frame render_def)

lemma elapse_osc:
  "oscs (elapse d s) a =
     (let n = oscs s a;
          n1 = (if audio_state s = Running
                then n\<lparr>osc_frequency := render_param (currentTime s + d) (osc_frequency n)\<rparr> else n)
      in if a \<in> t_osc ` {t \<in> set (timers s). t_due t \<le> clock_ms s + d * 1000}
         then n1\<lparr>osc_out := {}\<rparr> else n1)"
  by (simp add: elapse_def Let_def run_timers_oscs render_def)

lemma elapse_gain:
  "gains (elapse d s) a =
     (let n = gains s a;
          n1 = (if audio_state s = Running
                then n\<lparr>gain_gain := render_param (currentTime s + d) (gain_gain n)\<rparr> else n)
      in if a \<in> t_gain ` {t \<in> set (timers s). t_due t \<le> clock_ms s + d * 1000}
         then n1\<lparr>gain_out := {}\<rparr> else n1)"
  by (simp add: elapse_def Let_def run_timers_gains render_def)

text \<open>The frequency of key 60, between two rationals.\<close>

lemma two_powr_m34_pow4: "((2::real) powr (- 3 / 4)) ^ 4 = 1 / 8"
proof -
  have "((2::real) powr (- 3 / 4)) ^ 4 = 2 powr ((- 3 / 4) * 4)"
    by (simp add: powr_powr flip: powr_numeral)
  also have "\<dots> = 2 powr (- 3)" by simp
  also have "\<dots> = 1 / 8" by (simp add: powr_minus_divide)
  finally show ?thesis .
qed

lemma freq60_bounds: "261.62 < 440 * (2::real) powr (- 3 / 4) \<and> 440 * (2::real) powr (- 3 / 4) < 261.64"
proof -
  let ?x = "(2::real) powr (- 3 / 4)"
  have x0: "0 \<le> ?x" by simp
  have lo: "(261.62 / 440 :: real) ^ 4 < ?x ^ 4" unfolding two_powr_m34_pow4 by (simp add: power4_eq_xxxx)
  have hi: "?x ^ 4 < (261.64 / 440 :: real) ^ 4" unfolding two_powr_m34_pow4 by (simp add: power4_eq_xxxx)
  from lo x0 have "261.62 / 440 < ?x" by (rule power_less_imp_less_base)
  moreover from hi have "?x < 261.64 / 440" by (rule power_less_imp_less_base) simp
  ultimately show ?thesis by simp
qed

text \<open>Note-on on the example pages.\<close>

lemma page_start:
  assumes "w = None \<or> w = Some ''triangle''"
  shows "startNoteForElement ADSR (init key60 w) (Some k) = Inr
   \<lparr>currentTime = 0, audio_state = Running,
    keyEls = key60(k := \<lparr>dataset_midi = Some ''60'', class_active = True\<rparr>),
    waveSelect = w,
    oscs = (\<lambda>a. new_oscillator)(0 :=
        \<lparr>osc_type = ''triangle'',
         osc_frequency = \<lparr>p_slot = 440, p_events = [SetValue (440 * 2 powr (- 3 / 4)) 0]\<rparr>,
         osc_started = Some 0, osc_stopped = None, osc_out = {GainNode 1}\<rparr>),
    gains = (\<lambda>a. new_gain)(1 :=
        \<lparr>gain_gain = \<lparr>p_slot = 1, p_events =
           [SetValue 0.0001 0, ExpRamp 1 0.01, ExpRamp 0.75 0.13]\<rparr>,
         gain_out = {MasterGain}\<rparr>),
    next_node = 2,
    activeVoices = [k \<mapsto> \<lparr>v_osc = 0, v_gain = 1\<rparr>],
    clock_ms = 0,
    timers = []\<rparr>"
  using assms
  by (subst start_new_eq[where str="''60''" and m=60])
     (auto simp add: init_def key60_def parseInt_60 selected_wave_def ADSR_def insert_event_def
        valid_wave_def freq60_in_float_range sustain_in_float_range)

lemma mid_decay_value: "(3 / 4 :: real) < (3 / 4) powr (1 / 3)"
proof -
  have "(3 / 4 :: real) powr 1 < (3 / 4) powr (1 / 3)"
    by (rule powr_less_mono') simp_all
  then show ?thesis by simp
qed

text \<open>Note-on that throws.\<close>

lemma parseInt_Nil: "parseInt [] = NaN"
  by (simp add: parseInt_def)

lemma start_overflow:
  assumes "dataset_midi (keyEls s k) = Some str" "str \<noteq> []" "parseInt str = Num m"
    "activeVoices s k = None" "\<not> in_float_range (440 * 2 powr ((m - 69) / 12))"
  shows "startNoteForElement cfg s (Some k) = Inl TypeError"
  using assms
  by (auto simp add: startNoteForElement_def Let_def api_defs)

lemma start_new_fail:
  assumes "dataset_midi (keyEls s k) = Some str" "str \<noteq> []" "parseInt str = Num m"
    "activeVoices s k = None" "selected_wave s \<noteq> ''custom''" "0 \<le> currentTime s"
    "in_float_range (440 * 2 powr ((m - 69) / 12))"
  shows "currentTime s + attack cfg < 0 \<Longrightarrow>
      startNoteForElement cfg s (Some k) = Inl RangeError"
    and "0 \<le> currentTime s + attack cfg \<Longrightarrow> \<not> in_float_range (max 0.0001 (sustain cfg)) \<Longrightarrow>
      startNoteForElement cfg s (Some k) = Inl TypeError"
    and "0 \<le> currentTime s + attack cfg \<Longrightarrow> in_float_range (max 0.0001 (sustain cfg)) \<Longrightarrow>
      currentTime s + attack cfg + decay cfg < 0 \<Longrightarrow>
      startNoteForElement cfg s (Some k) = Inl RangeError"
  using assms
  by (auto simp add: startNoteForElement_def Let_def api_defs set_type_ok max_floor_nonzero
      selected_wave_def floor_in_range)

text \<open>Note-off returns.\<close>

lemma stop_returns:
  assumes "0 \<le> currentTime s" "0 \<le> release cfg"
  shows "\<exists>s'. stopNoteForElement cfg s key = Inr s'"
proof (cases key)
  case None
  then show ?thesis by (simp add: stop_null)
next
  case (Some k)
  show ?thesis
  proof (cases "activeVoices s k")
    case None
    with Some show ?thesis by (simp add: stop_absent)
  next
    case (Some v)
    from assms have "0 \<le> currentTime s + release cfg" by simp
    from stop_active_eq[OF Some assms(1) this] \<open>key = Some k\<close> show ?thesis by blast
  qed
qed

text \<open>Timers that fire, and nodes no due timer refers to.\<close>

lemma elapse_spares_osc:
  assumes "\<And>t. t \<in> set (timers s) \<Longrightarrow> t_due t \<le> clock_ms s + d * 1000 \<Longrightarrow> t_osc t \<noteq> a"
  shows "osc_out (oscs (elapse d s) a) = osc_out (oscs s a)"
proof -
  have "a \<notin> t_osc ` {t \<in> set (timers s). t_due t \<le> clock_ms s + d * 1000}"
  proof
    assume "a \<in> t_osc ` {t \<in> set (timers s). t_due t \<le> clock_ms s + d * 1000}"
    then obtain t where "t \<in> set (timers s)" "t_due t \<le> clock_ms s + d * 1000" "t_osc t = a"
      by auto
    with assms[of t] show False by simp
  qed
  then show ?thesis by (simp add: elapse_osc Let_def)
qed

lemma elapse_spares_gain:
  assumes "\<And>t. t \<in> set (timers s) \<Longrightarrow> t_due t \<le> clock_ms s + d * 1000 \<Longrightarrow> t_gain t \<noteq> a"
  shows "gain_out (gains (elapse d s) a) = gain_out (gains s a)"
proof -
  have "a \<notin> t_gain ` {t \<in> set (timers s). t_due t \<le> clock_ms s + d * 1000}"
  proof
    assume "a \<in> t_gain ` {t \<in> set (timers s). t_due t \<le> clock_ms s + d * 1000}"
    then obtain t where "t \<in> set (timers s)" "t_due t \<le> clock_ms s + d * 1000" "t_gain t = a"
      by auto
    with assms[of t] show False by simp
  qed
  then show ?thesis by (simp add: elapse_gain Let_def)
qed

lemma elapse_fires:
  assumes "t \<in> set (timers s)" and "t_due t \<le> clock_ms s + d * 1000"
  shows "osc_out (oscs (elapse d s) (t_osc t)) = {}" and "gain_out (gains (elapse d s) (t_gain t)) = {}"
proof -
  from assms have "t \<in> {t \<in> set (timers s). t_due t \<le> clock_ms s + d * 1000}" by simp
  then have "t_osc t \<in> t_osc ` {t \<in> set (timers s). t_due t \<le> clock_ms s + d * 1000}"
    and "t_gain t \<in> t_gain ` {t \<in> set (timers s). t_due t \<le> clock_ms s + d * 1000}"
    by (rule imageI)+
  then show "osc_out (oscs (elapse d s) (t_osc t)) = {}"
    and "gain_out (gains (elapse d s) (t_gain t)) = {}"
    by (simp_all add: elapse_osc elapse_gain Let_def)
qed

text \<open>What an allocated state gives.\<close>

lemma allocatedD:
  "allocated s \<Longrightarrow> activeVoices s k = Some v \<Longrightarrow> v_osc v < next_node s \<and> v_gain v < next_node s"
  "allocated s \<Longrightarrow> t \<in> set (timers s) \<Longrightarrow> t_osc t < next_node s \<and> t_gain t < next_node s"
  by (auto simp: allocated_def)

text \<open>Note-on, then note-off, of a key at rest.\<close>

lemma press_release:
  assumes d: "dataset_midi (keyEls s k) = Some str" and p: "parseInt str = Num m"
    and a: "activeVoices s k = None" and w: "selected_wave s \<noteq> ''custom''"
    and t: "0 \<le> currentTime s" and c: "0 \<le> attack cfg" "0 \<le> decay cfg" "0 \<le> release cfg"
    and f: "in_float_range (440 * 2 powr ((m - 69) / 12)) \<and>
      in_float_range (max 0.0001 (sustain cfg))"
  shows "\<exists>s1 s2. startNoteForElement cfg s (Some k) = Inr s1 \<and>
     stopNoteForElement cfg s1 (Some k) = Inr s2 \<and>
     activeVoices s1 = (activeVoices s)(k \<mapsto> \<lparr>v_osc = next_node s, v_gain = Suc (next_node s)\<rparr>) \<and>
     activeVoices s2 = activeVoices s \<and>
     next_node s2 = Suc (Suc (next_node s)) \<and> clock_ms s2 = clock_ms s \<and>
     currentTime s2 = currentTime s \<and> waveSelect s2 = waveSelect s \<and>
     dataset_midi (keyEls s2 k) = Some str \<and>
     timers s2 = timers s @
       [\<lparr>t_due = clock_ms s + (release cfg + 0.1) * 1000, t_osc = next_node s,
         t_gain = Suc (next_node s)\<rparr>] \<and>
     osc_started (oscs s2 (next_node s)) = Some (currentTime s) \<and>
     osc_stopped (oscs s2 (next_node s)) = Some (currentTime s + release cfg + 0.02) \<and>
     osc_out (oscs s2 (next_node s)) = {GainNode (Suc (next_node s))} \<and>
     gain_out (gains s2 (Suc (next_node s))) = {MasterGain}"
proof -
  from p have ne: "str \<noteq> []" by (auto simp: parseInt_Nil)
  from t c have t1: "0 \<le> currentTime s + attack cfg" "0 \<le> currentTime s + attack cfg + decay cfg"
    by simp_all
  let ?v = "\<lparr>v_osc = next_node s, v_gain = Suc (next_node s)\<rparr>"
  obtain s1 where s1: "startNoteForElement cfg s (Some k) = Inr s1"
    and f1: "activeVoices s1 = (activeVoices s)(k \<mapsto> ?v)" "currentTime s1 = currentTime s"
      "next_node s1 = Suc (Suc (next_node s))" "clock_ms s1 = clock_ms s" "timers s1 = timers s"
      "waveSelect s1 = waveSelect s" "dataset_midi (keyEls s1 k) = Some str"
      "osc_started (oscs s1 (next_node s)) = Some (currentTime s)"
      "osc_out (oscs s1 (next_node s)) = {GainNode (Suc (next_node s))}"
      "gain_out (gains s1 (Suc (next_node s))) = {MasterGain}"
    using start_new_eq[OF d ne p a w t t1 f] d by simp
  have a1: "activeVoices s1 k = Some ?v" by (simp add: f1)
  have t2: "0 \<le> currentTime s1" "0 \<le> currentTime s1 + release cfg" using t c by (simp_all add: f1)
  have m: "(activeVoices s1)(k := None) = activeVoices s" using a by (auto simp: f1)
  from stop_active_eq[OF a1 t2] f1 m s1 show ?thesis
    by simp
qed

text \<open>Note-off of a sounding key: what it leaves.\<close>

lemma stop_active_fields:
  assumes a: "activeVoices s k = Some v" and t: "0 \<le> currentTime s" and c: "0 \<le> release cfg"
  shows "\<exists>s'. stopNoteForElement cfg s (Some k) = Inr s' \<and>
     activeVoices s' = (activeVoices s)(k := None) \<and> next_node s' = next_node s \<and>
     clock_ms s' = clock_ms s \<and> currentTime s' = currentTime s \<and>
     waveSelect s' = waveSelect s \<and> audio_state s' = audio_state s \<and>
     dataset_midi (keyEls s' k) = dataset_midi (keyEls s k) \<and>
     timers s' = timers s @
       [\<lparr>t_due = clock_ms s + (release cfg + 0.1) * 1000, t_osc = v_osc v, t_gain = v_gain v\<rparr>] \<and>
     (\<forall>a. osc_out (oscs s' a) = osc_out (oscs s a)) \<and>
     (\<forall>a. gain_out (gains s' a) = gain_out (gains s a))"
proof -
  from t c have "0 \<le> currentTime s + release cfg" by simp
  from stop_active_eq[OF a t this] show ?thesis by simp
qed

text \<open>Note-on of a key at rest: what it leaves.\<close>

lemma start_new_fields:
  assumes d: "dataset_midi (keyEls s k) = Some str" and p: "parseInt str = Num m"
    and a: "activeVoices s k = None" and w: "selected_wave s \<noteq> ''custom''"
    and t: "0 \<le> currentTime s" and c: "0 \<le> attack cfg" "0 \<le> decay cfg"
    and f: "in_float_range (440 * 2 powr ((m - 69) / 12)) \<and>
      in_float_range (max 0.0001 (sustain cfg))"
  shows "\<exists>s'. startNoteForElement cfg s (Some k) = Inr s' \<and>
     activeVoices s' = (activeVoices s)(k \<mapsto> \<lparr>v_osc = next_node s, v_gain = Suc (next_node s)\<rparr>) \<and>
     next_node s' = Suc (Suc (next_node s)) \<and> timers s' = timers s \<and>
     clock_ms s' = clock_ms s \<and> currentTime s' = currentTime s \<and>
     waveSelect s' = waveSelect s \<and> dataset_midi (keyEls s' k) = Some str \<and>
     osc_out (oscs s' (next_node s)) = {GainNode (Suc (next_node s))} \<and>
     gain_out (gains s' (Suc (next_node s))) = {MasterGain} \<and>
     (\<forall>a. a \<noteq> next_node s \<longrightarrow> oscs s' a = oscs s a) \<and>
     (\<forall>a. a \<noteq> Suc (next_node s) \<longrightarrow> gains s' a = gains s a)"
proof -
  from p have ne: "str \<noteq> []" by (auto simp: parseInt_Nil)
  from t c have "0 \<le> currentTime s + attack cfg" "0 \<le> currentTime s + attack cfg + decay cfg"
    by simp_all
  from start_new_eq[OF d ne p a w t this f] d show ?thesis by simp
qed

text \<open>Note-on keeps the state allocated and leaves the key with a voice.\<close>

lemma start_leaves_voice:
  assumes d: "dataset_midi (keyEls s k) = Some str" and p: "parseInt str = Num m"
    and w: "selected_wave s \<noteq> ''custom''" and al: "allocated s"
    and t: "0 \<le> currentTime s" and c: "0 \<le> attack cfg" "0 \<le> decay cfg"
    and f: "in_float_range (440 * 2 powr ((m - 69) / 12)) \<and>
      in_float_range (max 0.0001 (sustain cfg))"
  shows "\<exists>s' v. startNoteForElement cfg s (Some k) = Inr s' \<and> activeVoices s' k = Some v \<and>
     allocated s' \<and> dataset_midi (keyEls s' k) = Some str \<and> waveSelect s' = waveSelect s \<and>
     currentTime s' = currentTime s \<and> clock_ms s' = clock_ms s \<and> timers s' = timers s"
proof (cases "activeVoices s k")
  case None
  from start_new_fields[OF d p None w t c f] obtain s' where s':
    "startNoteForElement cfg s (Some k) = Inr s'"
    "activeVoices s' = (activeVoices s)(k \<mapsto> \<lparr>v_osc = next_node s, v_gain = Suc (next_node s)\<rparr>)"
    "next_node s' = Suc (Suc (next_node s))" "timers s' = timers s"
    "clock_ms s' = clock_ms s" "currentTime s' = currentTime s"
    "waveSelect s' = waveSelect s" "dataset_midi (keyEls s' k) = Some str"
    by (elim exE conjE)
  have "allocated s'"
    unfolding allocated_def
  proof (intro conjI allI impI ballI)
    fix k' v assume "activeVoices s' k' = Some v"
    then have "v = \<lparr>v_osc = next_node s, v_gain = Suc (next_node s)\<rparr> \<or> activeVoices s k' = Some v"
      by (auto simp: s'(2) split: if_splits)
    then show "v_osc v < next_node s'" "v_gain v < next_node s'"
      using allocatedD(1)[OF al] by (auto simp: s'(3) less_Suc_eq)
  next
    fix t assume "t \<in> set (timers s')"
    then show "t_osc t < next_node s'" "t_gain t < next_node s'"
      using allocatedD(2)[OF al, of t] by (auto simp: s'(3,4))
  qed
  with s' show ?thesis by simp
next
  case (Some v)
  from p have ne: "str \<noteq> []" by (auto simp: parseInt_Nil)
  let ?s' = "if audio_state s = Suspended then s\<lparr>audio_state := Running\<rparr> else s"
  have "allocated ?s'" using al by (simp add: allocated_def)
  with start_registered[OF d ne Some, of cfg] d Some show ?thesis by simp
qed

text \<open>The states reached from an allocated one are allocated.\<close>

lemma allocated_init: "allocated (init els w)"
  by (simp add: allocated_def init_def)

lemma allocated_start:
  assumes "allocated s" and "startNoteForElement cfg s key = Inr s'"
  shows "allocated s'"
proof (cases key)
  case None
  with assms show ?thesis by (simp add: start_null)
next
  case (Some k)
  show ?thesis
  proof (cases "dataset_midi (keyEls s k) = None \<or> dataset_midi (keyEls s k) = Some []")
    case True
    from start_missing[OF True, of cfg] assms Some show ?thesis by simp
  next
    case False
    then obtain str where d: "dataset_midi (keyEls s k) = Some str" "str \<noteq> []" by auto
    show ?thesis
    proof (cases "activeVoices s k")
      case (Some v)
      from start_registered[OF d Some, of cfg] assms \<open>key = Some k\<close> show ?thesis
        by (cases "audio_state s = Suspended") (auto simp: allocated_def)
    next
      case None
      from assms(2) \<open>key = Some k\<close> have r: "startNoteForElement cfg s (Some k) = Inr s'" by simp
      from start_new_inv[OF r d None] obtain m where m: "parseInt str = Num m"
        "selected_wave s \<noteq> ''custom''" "0 \<le> currentTime s" "0 \<le> currentTime s + attack cfg"
        "0 \<le> currentTime s + attack cfg + decay cfg"
        "in_float_range (440 * 2 powr ((m - 69) / 12)) \<and>
      in_float_range (max 0.0001 (sustain cfg))" by blast
      from start_new_eq[OF d m(1) None m(2-6)] r
      have f: "activeVoices s' = (activeVoices s)(k \<mapsto> \<lparr>v_osc = next_node s, v_gain = Suc (next_node s)\<rparr>)"
        "next_node s' = Suc (Suc (next_node s))" "timers s' = timers s"
        by auto
      show ?thesis
        unfolding allocated_def
      proof (intro conjI allI impI ballI)
        fix k' v assume "activeVoices s' k' = Some v"
        then have "v = \<lparr>v_osc = next_node s, v_gain = Suc (next_node s)\<rparr> \<or> activeVoices s k' = Some v"
          by (auto simp: f(1) split: if_splits)
        then show "v_osc v < next_node s'" "v_gain v < next_node s'"
          using allocatedD(1)[OF assms(1)] by (auto simp: f(2) less_Suc_eq)
      next
        fix t assume "t \<in> set (timers s')"
        then show "t_osc t < next_node s'" "t_gain t < next_node s'"
          using allocatedD(2)[OF assms(1), of t] by (auto simp: f(2,3))
      qed
    qed
  qed
qed

lemma allocated_stop:
  assumes "allocated s" and "stopNoteForElement cfg s key = Inr s'"
  shows "allocated s'"
proof (cases key)
  case None
  with assms show ?thesis by (simp add: stop_null)
next
  case (Some k)
  show ?thesis
  proof (cases "activeVoices s k")
    case None
    from stop_absent[OF None, of cfg] assms Some show ?thesis
      by (auto simp: allocated_def classList_remove_def)
  next
    case (Some v)
    from assms(2) \<open>key = Some k\<close> Some
    have f: "activeVoices s' = (activeVoices s)(k := None)" "next_node s' = next_node s"
      "timers s' = timers s @ [\<lparr>t_due = clock_ms s + (release cfg + 0.1) * 1000,
          t_osc = v_osc v, t_gain = v_gain v\<rparr>]"
      by (auto simp: stopNoteForElement_def Let_def api_defs split: if_splits)
    from allocatedD(1)[OF assms(1) Some] assms(1) show ?thesis
      by (auto simp: allocated_def f split: if_splits)
  qed
qed

lemma allocated_elapse: "allocated s \<Longrightarrow> allocated (elapse d s)"
  by (simp add: allocated_def elapse_frame)

lemma allocated_run:
  "allocated s \<Longrightarrow> run cfg s cs = Inr s' \<Longrightarrow> allocated s'"
proof (induction cs arbitrary: s)
  case Nil
  then show ?case by simp
next
  case (Cons c cs)
  show ?case
  proof (cases c)
    case (NoteOn key)
    with Cons.prems(2) obtain s1 where "startNoteForElement cfg s key = Inr s1" "run cfg s1 cs = Inr s'"
      by (auto simp: bindE_def split: sum.splits)
    with Cons.IH allocated_start[OF Cons.prems(1)] show ?thesis by blast
  next
    case (NoteOff key)
    with Cons.prems(2) obtain s1 where "stopNoteForElement cfg s key = Inr s1" "run cfg s1 cs = Inr s'"
      by (auto simp: bindE_def split: sum.splits)
    with Cons.IH allocated_stop[OF Cons.prems(1)] show ?thesis by blast
  next
    case (Elapse d)
    with Cons.prems(2) have "run cfg (elapse d s) cs = Inr s'" by simp
    with Cons.IH allocated_elapse[OF Cons.prems(1)] show ?thesis by blast
  qed
qed

text \<open>Calls leave the audio clock alone, and it never runs backwards.\<close>

lemma currentTime_start:
  assumes "startNoteForElement cfg s key = Inr s'"
  shows "currentTime s' = currentTime s"
proof (cases key)
  case None
  with assms show ?thesis by (simp add: start_null)
next
  case (Some k)
  show ?thesis
  proof (cases "dataset_midi (keyEls s k) = None \<or> dataset_midi (keyEls s k) = Some []")
    case True
    from start_missing[OF True, of cfg] assms Some show ?thesis by simp
  next
    case False
    then obtain str where d: "dataset_midi (keyEls s k) = Some str" "str \<noteq> []" by auto
    show ?thesis
    proof (cases "activeVoices s k")
      case (Some v)
      from start_registered[OF d Some, of cfg] assms \<open>key = Some k\<close> show ?thesis
        by (cases "audio_state s = Suspended") auto
    next
      case None
      from assms \<open>key = Some k\<close> have r: "startNoteForElement cfg s (Some k) = Inr s'" by simp
      from start_new_inv[OF r d None] obtain m where m: "parseInt str = Num m"
        "selected_wave s \<noteq> ''custom''" "0 \<le> currentTime s" "0 \<le> currentTime s + attack cfg"
        "0 \<le> currentTime s + attack cfg + decay cfg"
        "in_float_range (440 * 2 powr ((m - 69) / 12)) \<and>
      in_float_range (max 0.0001 (sustain cfg))" by blast
      from start_new_eq[OF d m(1) None m(2-6)] r show ?thesis by auto
    qed
  qed
qed

lemma currentTime_stop:
  assumes "stopNoteForElement cfg s key = Inr s'"
  shows "currentTime s' = currentTime s"
  using assms
  by (auto simp: stopNoteForElement_def Let_def api_defs split: option.splits if_splits)

lemma currentTime_elapse: "0 \<le> d \<Longrightarrow> 0 \<le> currentTime s \<Longrightarrow> 0 \<le> currentTime (elapse d s)"
  by (simp add: elapse_frame)

text \<open>Note-off of a sounding key whose nodes no pending timer refers to.\<close>

lemma release_until_timer:
  assumes a: "activeVoices s k = Some v" and t: "0 \<le> currentTime s" and c: "0 \<le> release cfg"
    and st: "osc_started (oscs s (v_osc v)) \<noteq> None"
    and nt: "\<forall>x \<in> set (timers s). t_osc x \<noteq> v_osc v \<and> t_gain x \<noteq> v_gain v"
  shows "\<exists>s'. stopNoteForElement cfg s (Some k) = Inr s' \<and> activeVoices s' k = None \<and>
     osc_stopped (oscs s' (v_osc v)) = Some (currentTime s + release cfg + 0.02) \<and>
     timers s' = timers s @
       [\<lparr>t_due = clock_ms s + (release cfg + 0.1) * 1000, t_osc = v_osc v, t_gain = v_gain v\<rparr>] \<and>
     (\<forall>d. d < release cfg + 0.1 \<longrightarrow>
        osc_out (oscs (elapse d s') (v_osc v)) = osc_out (oscs s (v_osc v)) \<and>
        gain_out (gains (elapse d s') (v_gain v)) = gain_out (gains s (v_gain v))) \<and>
     (\<forall>d. release cfg + 0.1 \<le> d \<longrightarrow>
        osc_out (oscs (elapse d s') (v_osc v)) = {} \<and>
        gain_out (gains (elapse d s') (v_gain v)) = {} \<and>
        activeVoices (elapse d s') k = None)"
proof -
  let ?T = "\<lparr>t_due = clock_ms s + (release cfg + 0.1) * 1000, t_osc = v_osc v, t_gain = v_gain v\<rparr>"
  from t c have t': "0 \<le> currentTime s + release cfg" by simp
  from stop_active_eq[OF a t t'] st obtain s' where s':
    "stopNoteForElement cfg s (Some k) = Inr s'" "activeVoices s' = (activeVoices s)(k := None)"
    "osc_stopped (oscs s' (v_osc v)) = Some (currentTime s + release cfg + 0.02)"
    "timers s' = timers s @ [?T]" "clock_ms s' = clock_ms s"
    "osc_out (oscs s' (v_osc v)) = osc_out (oscs s (v_osc v))"
    "gain_out (gains s' (v_gain v)) = gain_out (gains s (v_gain v))"
    by simp
  have before: "osc_out (oscs (elapse d s') (v_osc v)) = osc_out (oscs s (v_osc v)) \<and>
      gain_out (gains (elapse d s') (v_gain v)) = gain_out (gains s (v_gain v))"
    if "d < release cfg + 0.1" for d
  proof -
    have due: "t_osc x \<noteq> v_osc v \<and> t_gain x \<noteq> v_gain v"
      if "x \<in> set (timers s')" "t_due x \<le> clock_ms s' + d * 1000" for x
    proof (cases "x \<in> set (timers s)")
      case True
      with nt show ?thesis by blast
    next
      case False
      with that(1) have "x = ?T" by (simp add: s')
      with that(2) \<open>d < release cfg + 0.1\<close> show ?thesis by (simp add: s')
    qed
    have "osc_out (oscs (elapse d s') (v_osc v)) = osc_out (oscs s' (v_osc v))"
      by (rule elapse_spares_osc) (simp add: due)
    moreover have "gain_out (gains (elapse d s') (v_gain v)) = gain_out (gains s' (v_gain v))"
      by (rule elapse_spares_gain) (simp add: due)
    ultimately show ?thesis by (simp add: s')
  qed
  have after: "osc_out (oscs (elapse d s') (v_osc v)) = {} \<and>
      gain_out (gains (elapse d s') (v_gain v)) = {} \<and> activeVoices (elapse d s') k = None"
    if "release cfg + 0.1 \<le> d" for d
  proof -
    have "?T \<in> set (timers s')" by (simp add: s')
    moreover have "t_due ?T \<le> clock_ms s' + d * 1000" using that by (simp add: s')
    ultimately show ?thesis using elapse_fires[of ?T s' d] by (simp add: elapse_frame s')
  qed
  have "activeVoices s' k = None" by (simp add: s')
  with s'(1,3,4) before after show ?thesis by blast
qed

lemma page_facts:
  "dataset_midi (keyEls page k) = Some ''60''" "selected_wave page \<noteq> ''custom''"
  "activeVoices page k = None" "allocated page" "0 \<le> currentTime page"
  "0 \<le> attack ADSR" "0 \<le> decay ADSR" "0 \<le> release ADSR"
  "next_node page = 0" "clock_ms page = 0" "timers page = []" "currentTime page = 0"
  "activeVoices page = Map.empty" "release ADSR = 0.25"
  by (simp_all add: page_def init_def key60_def selected_wave_def allocated_def ADSR_def)

text \<open>Press, release and press again on the example page.\<close>

lemma page_retrigger:
  "\<exists>s1 s2 s3. startNoteForElement ADSR page (Some 0) = Inr s1 \<and>
     stopNoteForElement ADSR s1 (Some 0) = Inr s2 \<and>
     startNoteForElement ADSR s2 (Some 0) = Inr s3 \<and>
     activeVoices s1 0 = Some \<lparr>v_osc = 0, v_gain = 1\<rparr> \<and>
     activeVoices s2 = Map.empty \<and> next_node s2 = 2 \<and>
     timers s2 = [\<lparr>t_due = 350, t_osc = 0, t_gain = 1\<rparr>] \<and>
     activeVoices s3 = [0 \<mapsto> \<lparr>v_osc = 2, v_gain = 3\<rparr>] \<and> next_node s3 = 4 \<and>
     timers s3 = [\<lparr>t_due = 350, t_osc = 0, t_gain = 1\<rparr>]"
proof -
  from press_release[OF page_facts(1) parseInt_60 page_facts(3,2,5,6,7,8) page_fits, of 0]
  obtain s1 s2 where s12: "startNoteForElement ADSR page (Some 0) = Inr s1"
    "stopNoteForElement ADSR s1 (Some 0) = Inr s2"
    "activeVoices s1 = [0 \<mapsto> \<lparr>v_osc = 0, v_gain = 1\<rparr>]"
    "activeVoices s2 = Map.empty" "next_node s2 = 2" "currentTime s2 = 0"
    "waveSelect s2 = waveSelect page" "dataset_midi (keyEls s2 0) = Some ''60''"
    "timers s2 = [\<lparr>t_due = 350, t_osc = 0, t_gain = 1\<rparr>]"
    by (simp add: page_facts numeral_2_eq_2) blast
  have "selected_wave s2 \<noteq> ''custom''"
    using page_facts(2) by (simp add: selected_wave_def s12)
  from start_new_fields[OF s12(8) parseInt_60 _ this _ page_facts(6,7) page_fits]
  obtain s3 where "startNoteForElement ADSR s2 (Some 0) = Inr s3"
    "activeVoices s3 = [0 \<mapsto> \<lparr>v_osc = 2, v_gain = 3\<rparr>]" "next_node s3 = 4"
    "timers s3 = [\<lparr>t_due = 350, t_osc = 0, t_gain = 1\<rparr>]"
    by (simp add: s12 numeral_3_eq_3 eval_nat_numeral) blast
  with s12 show ?thesis by simp
qed

lemma page_first_voice:
  "\<exists>s1. startNoteForElement ADSR page (Some 0) = Inr s1 \<and>
     activeVoices s1 0 = Some \<lparr>v_osc = 0, v_gain = 1\<rparr> \<and> next_node s1 = 2 \<and>
     audio_state s1 = Running \<and> currentTime s1 = 0 \<and> timers s1 = []"
  by (simp add: page_def page_start)

lemma elapse_osc_times:
  "osc_started (oscs (elapse d s) a) = osc_started (oscs s a)"
  "osc_stopped (oscs (elapse d s) a) = osc_stopped (oscs s a)"
  by (simp_all add: elapse_osc Let_def)

text \<open>
  A key at rest is pressed, held, released and pressed again before the timer is due:
  the nodes of both voices.
\<close>

lemma retrigger_at_rest:
  assumes d: "dataset_midi (keyEls s k) = Some str" and p: "parseInt str = Num m"
    and a: "activeVoices s k = None" and w: "selected_wave s \<noteq> ''custom''"
    and al: "allocated s" and t: "0 \<le> currentTime s"
    and c: "0 \<le> attack cfg" "0 \<le> decay cfg" "0 \<le> release cfg"
    and f: "in_float_range (440 * 2 powr ((m - 69) / 12)) \<and>
      in_float_range (max 0.0001 (sustain cfg))"
    and h: "0 \<le> h" and g: "0 \<le> g" "g < release cfg + 0.1"
  shows "\<exists>s1 s2 s3. startNoteForElement cfg s (Some k) = Inr s1 \<and>
     stopNoteForElement cfg (elapse h s1) (Some k) = Inr s2 \<and>
     startNoteForElement cfg (elapse g s2) (Some k) = Inr s3 \<and>
     activeVoices s1 k = Some \<lparr>v_osc = next_node s, v_gain = Suc (next_node s)\<rparr> \<and>
     next_node s1 = Suc (Suc (next_node s)) \<and>
     osc_out (oscs s3 (next_node s)) = {GainNode (Suc (next_node s))} \<and>
     gain_out (gains s3 (Suc (next_node s))) = {MasterGain} \<and>
     osc_stopped (oscs s3 (next_node s)) = Some (currentTime (elapse h s1) + release cfg + 0.02) \<and>
     (g < release cfg + 0.02 \<longrightarrow>
        sounding s3 \<lparr>v_osc = next_node s, v_gain = Suc (next_node s)\<rparr> \<and>
        sounding s3 \<lparr>v_osc = Suc (Suc (next_node s)), v_gain = Suc (Suc (Suc (next_node s)))\<rparr>)"
proof -
  let ?n = "next_node s"
  let ?old = "\<lparr>v_osc = ?n, v_gain = Suc ?n\<rparr>"
  from p have ne: "str \<noteq> []" by (auto simp: parseInt_Nil)
  from t c have t1: "0 \<le> currentTime s + attack cfg" "0 \<le> currentTime s + attack cfg + decay cfg"
    by simp_all
  from start_new_eq[OF d ne p a w t t1 f] d obtain s1 where s1:
    "startNoteForElement cfg s (Some k) = Inr s1" "activeVoices s1 k = Some ?old"
    "next_node s1 = Suc (Suc ?n)" "currentTime s1 = currentTime s" "timers s1 = timers s"
    "waveSelect s1 = waveSelect s" "dataset_midi (keyEls s1 k) = Some str"
    "osc_started (oscs s1 ?n) = Some (currentTime s)"
    "osc_out (oscs s1 ?n) = {GainNode (Suc ?n)}" "gain_out (gains s1 (Suc ?n)) = {MasterGain}"
    by simp
  have old1: "t_osc x \<noteq> ?n \<and> t_gain x \<noteq> Suc ?n" if "x \<in> set (timers s1)" for x
    using allocatedD(2)[OF al, of x] that by (simp add: s1)
  let ?e1 = "elapse h s1"
  have e1: "activeVoices ?e1 k = Some ?old" "next_node ?e1 = Suc (Suc ?n)"
    "waveSelect ?e1 = waveSelect s" "dataset_midi (keyEls ?e1 k) = Some str"
    "osc_started (oscs ?e1 ?n) = Some (currentTime s)"
    by (simp_all add: elapse_frame elapse_osc_times s1)
  have te1: "currentTime s \<le> currentTime ?e1" using h by (simp add: elapse_frame s1)
  with t have te1': "0 \<le> currentTime ?e1" "0 \<le> currentTime ?e1 + release cfg"
    using c(3) by simp_all
  have co1: "osc_out (oscs ?e1 ?n) = {GainNode (Suc ?n)}"
    using elapse_spares_osc[of s1 h ?n] old1 by (simp add: s1)
  have cg1: "gain_out (gains ?e1 (Suc ?n)) = {MasterGain}"
    using elapse_spares_gain[of s1 h "Suc ?n"] old1 by (simp add: s1)
  have sub1: "x \<in> set (timers s1)" if "x \<in> set (timers ?e1)" for x
    using that by (simp add: elapse_frame)
  from stop_active_eq[OF e1(1) te1'] e1(5) obtain s2 where s2:
    "stopNoteForElement cfg ?e1 (Some k) = Inr s2" "activeVoices s2 k = None"
    "next_node s2 = Suc (Suc ?n)" "currentTime s2 = currentTime ?e1"
    "audio_state s2 = audio_state ?e1" "clock_ms s2 = clock_ms ?e1"
    "waveSelect s2 = waveSelect s" "dataset_midi (keyEls s2 k) = Some str"
    "timers s2 = timers ?e1 @
       [\<lparr>t_due = clock_ms ?e1 + (release cfg + 0.1) * 1000, t_osc = ?n, t_gain = Suc ?n\<rparr>]"
    "osc_started (oscs s2 ?n) = Some (currentTime s)"
    "osc_stopped (oscs s2 ?n) = Some (currentTime ?e1 + release cfg + 0.02)"
    "osc_out (oscs s2 ?n) = {GainNode (Suc ?n)}" "gain_out (gains s2 (Suc ?n)) = {MasterGain}"
    by (simp add: e1 co1 cg1)
  let ?e2 = "elapse g s2"
  have due2: "t_osc x \<noteq> ?n \<and> t_gain x \<noteq> Suc ?n"
    if "x \<in> set (timers s2)" "t_due x \<le> clock_ms s2 + g * 1000" for x
  proof (cases "x \<in> set (timers ?e1)")
    case True
    then show ?thesis using old1 sub1 by blast
  next
    case False
    with that(1) have "x = \<lparr>t_due = clock_ms ?e1 + (release cfg + 0.1) * 1000, t_osc = ?n,
        t_gain = Suc ?n\<rparr>" by (simp add: s2)
    with that(2) g(2) show ?thesis by (simp add: s2)
  qed
  have e2: "activeVoices ?e2 k = None" "next_node ?e2 = Suc (Suc ?n)"
    "dataset_midi (keyEls ?e2 k) = Some str"
    "osc_started (oscs ?e2 ?n) = Some (currentTime s)"
    "osc_stopped (oscs ?e2 ?n) = Some (currentTime ?e1 + release cfg + 0.02)"
    by (simp_all add: elapse_frame elapse_osc_times s2)
  have w2: "selected_wave ?e2 \<noteq> ''custom''"
    using w by (simp add: selected_wave_def elapse_frame s2)
  have te2: "currentTime ?e1 \<le> currentTime ?e2" "currentTime ?e2 \<le> currentTime ?e1 + g"
    using g(1) by (simp_all add: elapse_frame s2)
  have t2: "0 \<le> currentTime ?e2" using te2 te1'(1) by simp
  have co2: "osc_out (oscs ?e2 ?n) = {GainNode (Suc ?n)}"
    using elapse_spares_osc[of s2 g ?n] due2 by (simp add: s2)
  have cg2: "gain_out (gains ?e2 (Suc ?n)) = {MasterGain}"
    using elapse_spares_gain[of s2 g "Suc ?n"] due2 by (simp add: s2)
  from t2 c have t2': "0 \<le> currentTime ?e2 + attack cfg"
    "0 \<le> currentTime ?e2 + attack cfg + decay cfg" by simp_all
  from start_new_eq[OF e2(3) ne p e2(1) w2 t2 t2' f] obtain s3 where s3:
    "startNoteForElement cfg ?e2 (Some k) = Inr s3" "currentTime s3 = currentTime ?e2"
    "oscs s3 ?n = oscs ?e2 ?n" "gains s3 (Suc ?n) = gains ?e2 (Suc ?n)"
    "osc_started (oscs s3 (Suc (Suc ?n))) = Some (currentTime ?e2)"
    "osc_stopped (oscs s3 (Suc (Suc ?n))) = None"
    "osc_out (oscs s3 (Suc (Suc ?n))) = {GainNode (Suc (Suc (Suc ?n)))}"
    "gain_out (gains s3 (Suc (Suc (Suc ?n)))) = {MasterGain}"
    by (simp add: e2)
  have both: "sounding s3 ?old \<and>
      sounding s3 \<lparr>v_osc = Suc (Suc ?n), v_gain = Suc (Suc (Suc ?n))\<rparr>"
    if "g < release cfg + 0.02"
    using that te1 te2 by (simp add: sounding_def s3 e2 co2 cg2)
  have "osc_out (oscs s3 ?n) = {GainNode (Suc ?n)}" "gain_out (gains s3 (Suc ?n)) = {MasterGain}"
    "osc_stopped (oscs s3 ?n) = Some (currentTime ?e1 + release cfg + 0.02)"
    by (simp_all add: s3 e2 co2 cg2)
  with s1(1,2,3) s2(1) s3(1) both show ?thesis by blast
qed

subsection \<open>Release and cleanup\<close>

text \<open>
  Claim C1, as the code has it. A key at rest is pressed, held for any time \<open>h\<close> and
  released: note-off takes the key out of the registry at once. The voice's oscillator
  and gain node stay connected, the oscillator being scheduled to stop \<open>release + 0.02\<close>
  seconds after note-off, until the timer set for \<open>(release + 0.1) * 1000\<close>
  milliseconds fires; its callback disconnects both nodes, and the registry still has
  no entry for the key.
  The key's frequency and the envelope's sustain level are within the range of a
  single-precision number, so that note-on returns.
\<close>

theorem release_keeps_nodes_until_timer:
  assumes "dataset_midi (keyEls s k) = Some str" and "parseInt str = Num m"
    and "activeVoices s k = None" and "selected_wave s \<noteq> ''custom''"
    and "allocated s" and "0 \<le> currentTime s"
    and "0 \<le> attack cfg" and "0 \<le> decay cfg" and "0 \<le> release cfg"
    and "in_float_range (440 * 2 powr ((m - 69) / 12))"
    and "in_float_range (max 0.0001 (sustain cfg))"
  shows "\<exists>s1. startNoteForElement cfg s (Some k) = Inr s1 \<and>
     activeVoices s1 k = Some \<lparr>v_osc = next_node s, v_gain = Suc (next_node s)\<rparr> \<and>
     (\<forall>h. 0 \<le> h \<longrightarrow>
        (\<exists>s2. stopNoteForElement cfg (elapse h s1) (Some k) = Inr s2 \<and>
           activeVoices s2 k = None \<and>
           osc_stopped (oscs s2 (next_node s)) =
             Some (currentTime (elapse h s1) + release cfg + 0.02) \<and>
           \<lparr>t_due = clock_ms s + h * 1000 + (release cfg + 0.1) * 1000, t_osc = next_node s,
             t_gain = Suc (next_node s)\<rparr> \<in> set (timers s2) \<and>
           (\<forall>d. d < release cfg + 0.1 \<longrightarrow>
              osc_out (oscs (elapse d s2) (next_node s)) = {GainNode (Suc (next_node s))} \<and>
              gain_out (gains (elapse d s2) (Suc (next_node s))) = {MasterGain}) \<and>
           (\<forall>d. release cfg + 0.1 \<le> d \<longrightarrow>
              osc_out (oscs (elapse d s2) (next_node s)) = {} \<and>
              gain_out (gains (elapse d s2) (Suc (next_node s))) = {} \<and>
              activeVoices (elapse d s2) k = None)))"
proof -
  let ?n = "next_node s"
  let ?v = "\<lparr>v_osc = ?n, v_gain = Suc ?n\<rparr>"
  from assms(2) have ne: "str \<noteq> []" by (auto simp: parseInt_Nil)
  from assms(6,7,8) have t1: "0 \<le> currentTime s + attack cfg"
    "0 \<le> currentTime s + attack cfg + decay cfg" by simp_all
  from start_new_eq[OF assms(1) ne assms(2,3,4,6) t1 conjI[OF assms(10,11)]] obtain s1 where s1:
    "startNoteForElement cfg s (Some k) = Inr s1" "activeVoices s1 k = Some ?v"
    "currentTime s1 = currentTime s" "clock_ms s1 = clock_ms s" "timers s1 = timers s"
    "osc_started (oscs s1 ?n) = Some (currentTime s)"
    "osc_out (oscs s1 ?n) = {GainNode (Suc ?n)}" "gain_out (gains s1 (Suc ?n)) = {MasterGain}"
    by simp
  have old: "t_osc x \<noteq> ?n \<and> t_gain x \<noteq> Suc ?n" if "x \<in> set (timers s1)" for x
    using allocatedD(2)[OF assms(5), of x] that by (simp add: s1)
  have held: "\<exists>s2. stopNoteForElement cfg (elapse h s1) (Some k) = Inr s2 \<and>
           activeVoices s2 k = None \<and>
           osc_stopped (oscs s2 ?n) = Some (currentTime (elapse h s1) + release cfg + 0.02) \<and>
           \<lparr>t_due = clock_ms s + h * 1000 + (release cfg + 0.1) * 1000, t_osc = ?n,
             t_gain = Suc ?n\<rparr> \<in> set (timers s2) \<and>
           (\<forall>d. d < release cfg + 0.1 \<longrightarrow>
              osc_out (oscs (elapse d s2) ?n) = {GainNode (Suc ?n)} \<and>
              gain_out (gains (elapse d s2) (Suc ?n)) = {MasterGain}) \<and>
           (\<forall>d. release cfg + 0.1 \<le> d \<longrightarrow>
              osc_out (oscs (elapse d s2) ?n) = {} \<and>
              gain_out (gains (elapse d s2) (Suc ?n)) = {} \<and>
              activeVoices (elapse d s2) k = None)" if h: "0 \<le> h" for h
  proof -
    let ?e = "elapse h s1"
    have a: "activeVoices ?e k = Some ?v" by (simp add: elapse_frame s1)
    have t: "0 \<le> currentTime ?e" using assms(6) h by (simp add: elapse_frame s1)
    have st: "osc_started (oscs ?e (v_osc ?v)) \<noteq> None"
      by (simp add: elapse_osc Let_def s1)
    have nt: "\<forall>x \<in> set (timers ?e). t_osc x \<noteq> v_osc ?v \<and> t_gain x \<noteq> v_gain ?v"
      using old by (simp add: elapse_frame)
    have co: "osc_out (oscs ?e ?n) = {GainNode (Suc ?n)}"
      using elapse_spares_osc[of s1 h ?n] old by (simp add: s1)
    have cg: "gain_out (gains ?e (Suc ?n)) = {MasterGain}"
      using elapse_spares_gain[of s1 h "Suc ?n"] old by (simp add: s1)
    have ck: "clock_ms ?e = clock_ms s + h * 1000" by (simp add: elapse_frame s1)
    from release_until_timer[OF a t assms(9) st nt] obtain s2 where s2:
      "stopNoteForElement cfg ?e (Some k) = Inr s2" "activeVoices s2 k = None"
      "osc_stopped (oscs s2 (v_osc ?v)) = Some (currentTime ?e + release cfg + 0.02)"
      "timers s2 = timers ?e @
         [\<lparr>t_due = clock_ms ?e + (release cfg + 0.1) * 1000, t_osc = v_osc ?v, t_gain = v_gain ?v\<rparr>]"
      and b: "\<forall>d. d < release cfg + 0.1 \<longrightarrow>
        osc_out (oscs (elapse d s2) (v_osc ?v)) = osc_out (oscs ?e (v_osc ?v)) \<and>
        gain_out (gains (elapse d s2) (v_gain ?v)) = gain_out (gains ?e (v_gain ?v))"
      and f: "\<forall>d. release cfg + 0.1 \<le> d \<longrightarrow>
        osc_out (oscs (elapse d s2) (v_osc ?v)) = {} \<and>
        gain_out (gains (elapse d s2) (v_gain ?v)) = {} \<and>
        activeVoices (elapse d s2) k = None"
      by (elim exE conjE)
    have 1: "osc_stopped (oscs s2 ?n) = Some (currentTime ?e + release cfg + 0.02)"
      using s2(3) by simp
    have 2: "\<lparr>t_due = clock_ms s + h * 1000 + (release cfg + 0.1) * 1000, t_osc = ?n,
             t_gain = Suc ?n\<rparr> \<in> set (timers s2)"
      by (simp add: s2(4) ck)
    have 3: "\<forall>d. d < release cfg + 0.1 \<longrightarrow>
              osc_out (oscs (elapse d s2) ?n) = {GainNode (Suc ?n)} \<and>
              gain_out (gains (elapse d s2) (Suc ?n)) = {MasterGain}"
      using b by (simp add: co cg)
    have 4: "\<forall>d. release cfg + 0.1 \<le> d \<longrightarrow>
              osc_out (oscs (elapse d s2) ?n) = {} \<and>
              gain_out (gains (elapse d s2) (Suc ?n)) = {} \<and>
              activeVoices (elapse d s2) k = None"
      using f by simp
    from s2(1,2) 1 2 3 4 show ?thesis by blast
  qed
  from s1(1,2) held show ?thesis by blast
qed

theorem release_keeps_nodes_until_timer_witness:
  "\<exists>s1 s2. startNoteForElement ADSR page (Some 0) = Inr s1 \<and>
     activeVoices s1 0 = Some \<lparr>v_osc = 0, v_gain = 1\<rparr> \<and>
     stopNoteForElement ADSR (elapse 1 s1) (Some 0) = Inr s2 \<and> activeVoices s2 0 = None \<and>
     osc_stopped (oscs s2 0) = Some 1.27 \<and>
     \<lparr>t_due = 1350, t_osc = 0, t_gain = 1\<rparr> \<in> set (timers s2) \<and>
     osc_out (oscs (elapse 0.25 s2) 0) = {GainNode 1} \<and>
     gain_out (gains (elapse 0.25 s2) 1) = {MasterGain} \<and>
     osc_out (oscs (elapse 0.35 s2) 0) = {} \<and>
     gain_out (gains (elapse 0.35 s2) 1) = {}"
proof -
  from release_keeps_nodes_until_timer[OF page_facts(1) parseInt_60 page_facts(3,2,4,5,6,7,8)
      key60_in_float_range ADSR_sustain_in_float_range, of 0]
  obtain s1 where r: "startNoteForElement ADSR page (Some 0) = Inr s1"
    and v: "activeVoices s1 0 = Some \<lparr>v_osc = next_node page, v_gain = Suc (next_node page)\<rparr>"
    and h: "\<forall>h. 0 \<le> h \<longrightarrow>
        (\<exists>s2. stopNoteForElement ADSR (elapse h s1) (Some 0) = Inr s2 \<and>
           activeVoices s2 0 = None \<and>
           osc_stopped (oscs s2 (next_node page)) =
             Some (currentTime (elapse h s1) + release ADSR + 0.02) \<and>
           \<lparr>t_due = clock_ms page + h * 1000 + (release ADSR + 0.1) * 1000, t_osc = next_node page,
             t_gain = Suc (next_node page)\<rparr> \<in> set (timers s2) \<and>
           (\<forall>d. d < release ADSR + 0.1 \<longrightarrow>
              osc_out (oscs (elapse d s2) (next_node page)) = {GainNode (Suc (next_node page))} \<and>
              gain_out (gains (elapse d s2) (Suc (next_node page))) = {MasterGain}) \<and>
           (\<forall>d. release ADSR + 0.1 \<le> d \<longrightarrow>
              osc_out (oscs (elapse d s2) (next_node page)) = {} \<and>
              gain_out (gains (elapse d s2) (Suc (next_node page))) = {} \<and>
              activeVoices (elapse d s2) 0 = None))"
    by (elim exE conjE)
  from page_first_voice r have run: "audio_state s1 = Running" "currentTime s1 = 0" by auto
  have "(0::real) \<le> 1" by simp
  from h[THEN spec, of 1, THEN mp, OF this] obtain s2 where s2: "stopNoteForElement ADSR (elapse 1 s1) (Some 0) = Inr s2"
    "activeVoices s2 0 = None"
    and o: "osc_stopped (oscs s2 (next_node page)) =
             Some (currentTime (elapse 1 s1) + release ADSR + 0.02)"
    and tm: "\<lparr>t_due = clock_ms page + 1 * 1000 + (release ADSR + 0.1) * 1000, t_osc = next_node page,
             t_gain = Suc (next_node page)\<rparr> \<in> set (timers s2)"
    and b: "\<forall>d. d < release ADSR + 0.1 \<longrightarrow>
              osc_out (oscs (elapse d s2) (next_node page)) = {GainNode (Suc (next_node page))} \<and>
              gain_out (gains (elapse d s2) (Suc (next_node page))) = {MasterGain}"
    and a: "\<forall>d. release ADSR + 0.1 \<le> d \<longrightarrow>
              osc_out (oscs (elapse d s2) (next_node page)) = {} \<and>
              gain_out (gains (elapse d s2) (Suc (next_node page))) = {} \<and>
              activeVoices (elapse d s2) 0 = None"
    by (elim exE conjE)
  from b have 1: "osc_out (oscs (elapse 0.25 s2) 0) = {GainNode 1} \<and>
        gain_out (gains (elapse 0.25 s2) 1) = {MasterGain}" by (simp add: page_facts)
  from a have 2: "osc_out (oscs (elapse 0.35 s2) 0) = {} \<and>
        gain_out (gains (elapse 0.35 s2) 1) = {}" by (simp add: page_facts)
  from v o tm have 3: "activeVoices s1 0 = Some \<lparr>v_osc = 0, v_gain = 1\<rparr>"
    "osc_stopped (oscs s2 0) = Some 1.27" "\<lparr>t_due = 1350, t_osc = 0, t_gain = 1\<rparr> \<in> set (timers s2)"
    by (simp_all add: page_facts elapse_frame run)
  show ?thesis
    apply (rule exI[of _ s1], rule exI[of _ s2])
    using r s2 1 2 3 apply (intro conjI)
    apply blast+
    done
qed

text \<open>
  The registry does not keep the voice during the release: on the example page it is
  empty right after note-off, while the cleanup timer is still pending.
\<close>

theorem registry_entry_removed_at_once_counterexample:
  "map_sum id activeVoices (run ADSR page [NoteOn (Some 0), NoteOff (Some 0)]) = Inr Map.empty \<and>
   map_sum id timers (run ADSR page [NoteOn (Some 0), NoteOff (Some 0)]) =
     Inr [\<lparr>t_due = 350, t_osc = 0, t_gain = 1\<rparr>]"
  using page_retrigger by (auto simp: bindE_def)

subsection \<open>Note-on during the release\<close>

text \<open>
  Claim C2, as the code has it. Note-off of a sounding key leaves the key without
  registry entry, so a note-on that follows while the cleanup timer is pending is not
  ignored: it creates the next two nodes and registers them as the key's new voice.
  The key's frequency and the envelope's sustain level are within the range of a
  single-precision number, so that note-on returns.
\<close>

theorem noteOn_during_release_starts_voice:
  assumes d: "dataset_midi (keyEls s k) = Some str" and p: "parseInt str = Num m"
    and w: "selected_wave s \<noteq> ''custom''" and a: "activeVoices s k = Some old"
    and al: "allocated s" and t: "0 \<le> currentTime s"
    and c: "0 \<le> attack cfg" "0 \<le> decay cfg" "0 \<le> release cfg"
    and f: "in_float_range (440 * 2 powr ((m - 69) / 12))"
    and fs: "in_float_range (max 0.0001 (sustain cfg))"
  shows "\<exists>s1. stopNoteForElement cfg s (Some k) = Inr s1 \<and> activeVoices s1 k = None \<and>
     (\<forall>g. 0 \<le> g \<and> g < release cfg + 0.1 \<longrightarrow>
        \<lparr>t_due = clock_ms s + (release cfg + 0.1) * 1000, t_osc = v_osc old, t_gain = v_gain old\<rparr>
          \<in> set (timers (elapse g s1)) \<and>
        (\<exists>s2. startNoteForElement cfg (elapse g s1) (Some k) = Inr s2 \<and>
           activeVoices s2 k = Some \<lparr>v_osc = next_node s, v_gain = Suc (next_node s)\<rparr> \<and>
           next_node s2 = Suc (Suc (next_node s)) \<and>
           v_osc old < next_node s \<and> v_gain old < next_node s))"
proof -
  let ?T = "\<lparr>t_due = clock_ms s + (release cfg + 0.1) * 1000, t_osc = v_osc old, t_gain = v_gain old\<rparr>"
  from stop_active_fields[OF a t c(3)] obtain s1 where s1:
    "stopNoteForElement cfg s (Some k) = Inr s1"
    "activeVoices s1 = (activeVoices s)(k := None)" "next_node s1 = next_node s"
    "clock_ms s1 = clock_ms s" "currentTime s1 = currentTime s"
    "waveSelect s1 = waveSelect s"
    "dataset_midi (keyEls s1 k) = dataset_midi (keyEls s k)"
    "timers s1 = timers s @ [?T]"
    by (elim exE conjE)
  have rest: "activeVoices s1 k = None" by (simp add: s1(2))
  have later: "?T \<in> set (timers (elapse g s1)) \<and>
      (\<exists>s2. startNoteForElement cfg (elapse g s1) (Some k) = Inr s2 \<and>
         activeVoices s2 k = Some \<lparr>v_osc = next_node s, v_gain = Suc (next_node s)\<rparr> \<and>
         next_node s2 = Suc (Suc (next_node s)) \<and>
         v_osc old < next_node s \<and> v_gain old < next_node s)"
    if g: "0 \<le> g" "g < release cfg + 0.1" for g
  proof -
    let ?e = "elapse g s1"
    have pending: "?T \<in> set (timers ?e)"
      using g(2) by (simp add: elapse_frame s1)
    have d': "dataset_midi (keyEls ?e k) = Some str" by (simp add: elapse_frame s1 d)
    have a': "activeVoices ?e k = None" by (simp add: elapse_frame rest)
    have w': "selected_wave ?e \<noteq> ''custom''"
      using w by (simp add: selected_wave_def elapse_frame s1)
    have t': "0 \<le> currentTime ?e" using t g(1) by (simp add: elapse_frame s1)
    from start_new_fields[OF d' p a' w' t' c(1,2) conjI[OF f fs]] obtain s2 where
      "startNoteForElement cfg ?e (Some k) = Inr s2"
      "activeVoices s2 = (activeVoices ?e)(k \<mapsto> \<lparr>v_osc = next_node ?e, v_gain = Suc (next_node ?e)\<rparr>)"
      "next_node s2 = Suc (Suc (next_node ?e))"
      by (elim exE conjE)
    then have "startNoteForElement cfg ?e (Some k) = Inr s2 \<and>
         activeVoices s2 k = Some \<lparr>v_osc = next_node s, v_gain = Suc (next_node s)\<rparr> \<and>
         next_node s2 = Suc (Suc (next_node s))"
      by (simp add: elapse_frame s1)
    with pending allocatedD(1)[OF al a] show ?thesis by blast
  qed
  from s1(1) rest later show ?thesis by blast
qed

theorem noteOn_during_release_starts_voice_witness:
  "\<exists>s0 s1. startNoteForElement ADSR page (Some 0) = Inr s0 \<and>
     activeVoices s0 0 = Some \<lparr>v_osc = 0, v_gain = 1\<rparr> \<and>
     stopNoteForElement ADSR s0 (Some 0) = Inr s1 \<and> activeVoices s1 0 = None \<and>
     \<lparr>t_due = 350, t_osc = 0, t_gain = 1\<rparr> \<in> set (timers (elapse 0.1 s1)) \<and>
     (\<exists>s2. startNoteForElement ADSR (elapse 0.1 s1) (Some 0) = Inr s2 \<and>
        activeVoices s2 0 = Some \<lparr>v_osc = 2, v_gain = 3\<rparr> \<and> next_node s2 = 4)"
proof -
  from start_leaves_voice[OF page_facts(1) parseInt_60 page_facts(2,4,5,6,7) page_fits, of 0]
  obtain s0 old where s0: "startNoteForElement ADSR page (Some 0) = Inr s0"
    "activeVoices s0 0 = Some old" "allocated s0" "dataset_midi (keyEls s0 0) = Some ''60''"
    "waveSelect s0 = waveSelect page" "currentTime s0 = currentTime page"
    "clock_ms s0 = clock_ms page"
    by (elim exE conjE)
  have w: "selected_wave s0 \<noteq> ''custom''"
    using page_facts(2) by (simp add: selected_wave_def s0)
  have t: "0 \<le> currentTime s0" by (simp add: s0 page_facts)
  have o: "old = \<lparr>v_osc = 0, v_gain = 1\<rparr>" and n: "next_node s0 = 2"
    using s0(1,2) by (auto simp add: page_def page_start)
  from noteOn_during_release_starts_voice[OF s0(4) parseInt_60 w s0(2,3) t page_facts(6,7,8)
      key60_in_float_range ADSR_sustain_in_float_range]
  obtain s1 where s1: "stopNoteForElement ADSR s0 (Some 0) = Inr s1" "activeVoices s1 0 = None"
    and g: "\<forall>g. 0 \<le> g \<and> g < release ADSR + 0.1 \<longrightarrow>
        \<lparr>t_due = clock_ms s0 + (release ADSR + 0.1) * 1000, t_osc = v_osc old, t_gain = v_gain old\<rparr>
          \<in> set (timers (elapse g s1)) \<and>
        (\<exists>s2. startNoteForElement ADSR (elapse g s1) (Some 0) = Inr s2 \<and>
           activeVoices s2 0 = Some \<lparr>v_osc = next_node s0, v_gain = Suc (next_node s0)\<rparr> \<and>
           next_node s2 = Suc (Suc (next_node s0)) \<and>
           v_osc old < next_node s0 \<and> v_gain old < next_node s0)"
    by (elim exE conjE)
  have "(0::real) \<le> 0.1 \<and> 0.1 < release ADSR + 0.1" by (simp add: page_facts)
  with g have "\<lparr>t_due = clock_ms s0 + (release ADSR + 0.1) * 1000, t_osc = v_osc old, t_gain = v_gain old\<rparr>
          \<in> set (timers (elapse 0.1 s1)) \<and>
        (\<exists>s2. startNoteForElement ADSR (elapse 0.1 s1) (Some 0) = Inr s2 \<and>
           activeVoices s2 0 = Some \<lparr>v_osc = next_node s0, v_gain = Suc (next_node s0)\<rparr> \<and>
           next_node s2 = Suc (Suc (next_node s0)) \<and>
           v_osc old < next_node s0 \<and> v_gain old < next_node s0)"
    by blast
  then have "\<lparr>t_due = 350, t_osc = 0, t_gain = 1\<rparr> \<in> set (timers (elapse 0.1 s1)) \<and>
     (\<exists>s2. startNoteForElement ADSR (elapse 0.1 s1) (Some 0) = Inr s2 \<and>
        activeVoices s2 0 = Some \<lparr>v_osc = 2, v_gain = 3\<rparr> \<and> next_node s2 = 4)"
    by (simp add: o n s0 page_facts numeral_3_eq_3 eval_nat_numeral)
  with s0(1,2) s1 o show ?thesis by blast
qed

text \<open>
  On the example page the third call creates the nodes 2 and 3 and registers them,
  with the first voice's cleanup timer still pending.
\<close>

theorem noteOn_during_release_counterexample:
  "map_sum id next_node (run ADSR page [NoteOn (Some 0), NoteOff (Some 0)]) = Inr 2 \<and>
   map_sum id next_node (run ADSR page [NoteOn (Some 0), NoteOff (Some 0), NoteOn (Some 0)]) = Inr 4 \<and>
   map_sum id activeVoices (run ADSR page [NoteOn (Some 0), NoteOff (Some 0), NoteOn (Some 0)]) =
     Inr [0 \<mapsto> \<lparr>v_osc = 2, v_gain = 3\<rparr>] \<and>
   map_sum id timers (run ADSR page [NoteOn (Some 0), NoteOff (Some 0), NoteOn (Some 0)]) =
     Inr [\<lparr>t_due = 350, t_osc = 0, t_gain = 1\<rparr>]"
  using page_retrigger by (auto simp: bindE_def)

subsection \<open>The old cleanup and the new voice\<close>

text \<open>
  Claim C3, as the code has it. A key is pressed, held for any time \<open>h\<close>, released, and
  pressed again after a time \<open>g\<close> shorter than the timer's delay. Then the registry holds
  one voice for the key, the new one, made of nodes created after the old voice's. The
  old voice is not in the registry, but it is not gone: when the key was at rest before
  the first press, the old oscillator and the old gain node are still connected after
  the second press, and while \<open>g\<close> is shorter than \<open>release + 0.02\<close> the old voice and
  the new voice both sound. The old voice's timer is pending; its callback disconnects
  the old oscillator and the old gain node and changes no other node and no registry
  entry. However much time passes, the new voice stays registered and connected, and
  once \<open>release + 0.1\<close> seconds have passed since note-off the old nodes are
  disconnected. The key's frequency and the envelope's sustain level are within the
  range of a single-precision number, so that note-on returns.
\<close>

theorem old_cleanup_spares_new_voice:
  assumes d: "dataset_midi (keyEls s k) = Some str" and p: "parseInt str = Num m"
    and w: "selected_wave s \<noteq> ''custom''" and al: "allocated s" and t: "0 \<le> currentTime s"
    and c: "0 \<le> attack cfg" "0 \<le> decay cfg" "0 \<le> release cfg"
    and f: "in_float_range (440 * 2 powr ((m - 69) / 12))"
    and fs: "in_float_range (max 0.0001 (sustain cfg))"
  shows "\<exists>s1 old. startNoteForElement cfg s (Some k) = Inr s1 \<and> activeVoices s1 k = Some old \<and>
     (\<forall>h g. 0 \<le> h \<and> 0 \<le> g \<and> g < release cfg + 0.1 \<longrightarrow>
        (\<exists>s2 s3.
           stopNoteForElement cfg (elapse h s1) (Some k) = Inr s2 \<and> activeVoices s2 k = None \<and>
           startNoteForElement cfg (elapse g s2) (Some k) = Inr s3 \<and>
           activeVoices s3 k = Some \<lparr>v_osc = next_node s1, v_gain = Suc (next_node s1)\<rparr> \<and>
           v_osc old < next_node s1 \<and> v_gain old < next_node s1 \<and>
           \<lparr>t_due = clock_ms s + h * 1000 + (release cfg + 0.1) * 1000, t_osc = v_osc old,
             t_gain = v_gain old\<rparr> \<in> set (timers s3) \<and>
           (activeVoices s k = None \<longrightarrow>
              osc_out (oscs s3 (v_osc old)) = {GainNode (v_gain old)} \<and>
              gain_out (gains s3 (v_gain old)) = {MasterGain} \<and>
              (g < release cfg + 0.02 \<longrightarrow>
                 sounding s3 old \<and>
                 sounding s3 \<lparr>v_osc = next_node s1, v_gain = Suc (next_node s1)\<rparr>)) \<and>
           (\<exists>s4. timeoutCallback (v_osc old) (v_gain old) s3 = Inr s4 \<and>
              activeVoices s4 = activeVoices s3 \<and>
              osc_out (oscs s4 (v_osc old)) = {} \<and> gain_out (gains s4 (v_gain old)) = {} \<and>
              (\<forall>a. a \<noteq> v_osc old \<longrightarrow> oscs s4 a = oscs s3 a) \<and>
              (\<forall>a. a \<noteq> v_gain old \<longrightarrow> gains s4 a = gains s3 a)) \<and>
           (\<forall>e. activeVoices (elapse e s3) k =
                Some \<lparr>v_osc = next_node s1, v_gain = Suc (next_node s1)\<rparr> \<and>
              osc_out (oscs (elapse e s3) (next_node s1)) = {GainNode (Suc (next_node s1))} \<and>
              gain_out (gains (elapse e s3) (Suc (next_node s1))) = {MasterGain}) \<and>
           (\<forall>e. release cfg + 0.1 \<le> g + e \<longrightarrow>
              osc_out (oscs (elapse e s3) (v_osc old)) = {} \<and>
              gain_out (gains (elapse e s3) (v_gain old)) = {})))"
proof -
  from start_leaves_voice[OF d p w al t c(1,2) conjI[OF f fs]] obtain s1 old where s1:
    "startNoteForElement cfg s (Some k) = Inr s1" "activeVoices s1 k = Some old"
    "allocated s1" "dataset_midi (keyEls s1 k) = Some str" "waveSelect s1 = waveSelect s"
    "currentTime s1 = currentTime s" "clock_ms s1 = clock_ms s" "timers s1 = timers s"
    by (elim exE conjE)
  let ?n = "next_node s1"
  let ?new = "\<lparr>v_osc = ?n, v_gain = Suc ?n\<rparr>"
  have old: "v_osc old < ?n" "v_gain old < ?n" using allocatedD(1)[OF s1(3) s1(2)] by simp_all
  have seq: "\<exists>s2 s3.
           stopNoteForElement cfg (elapse h s1) (Some k) = Inr s2 \<and> activeVoices s2 k = None \<and>
           startNoteForElement cfg (elapse g s2) (Some k) = Inr s3 \<and>
           activeVoices s3 k = Some \<lparr>v_osc = next_node s1, v_gain = Suc (next_node s1)\<rparr> \<and>
           v_osc old < next_node s1 \<and> v_gain old < next_node s1 \<and>
           \<lparr>t_due = clock_ms s + h * 1000 + (release cfg + 0.1) * 1000, t_osc = v_osc old,
             t_gain = v_gain old\<rparr> \<in> set (timers s3) \<and>
           (activeVoices s k = None \<longrightarrow>
              osc_out (oscs s3 (v_osc old)) = {GainNode (v_gain old)} \<and>
              gain_out (gains s3 (v_gain old)) = {MasterGain} \<and>
              (g < release cfg + 0.02 \<longrightarrow>
                 sounding s3 old \<and>
                 sounding s3 \<lparr>v_osc = next_node s1, v_gain = Suc (next_node s1)\<rparr>)) \<and>
           (\<exists>s4. timeoutCallback (v_osc old) (v_gain old) s3 = Inr s4 \<and>
              activeVoices s4 = activeVoices s3 \<and>
              osc_out (oscs s4 (v_osc old)) = {} \<and> gain_out (gains s4 (v_gain old)) = {} \<and>
              (\<forall>a. a \<noteq> v_osc old \<longrightarrow> oscs s4 a = oscs s3 a) \<and>
              (\<forall>a. a \<noteq> v_gain old \<longrightarrow> gains s4 a = gains s3 a)) \<and>
           (\<forall>e. activeVoices (elapse e s3) k =
                Some \<lparr>v_osc = next_node s1, v_gain = Suc (next_node s1)\<rparr> \<and>
              osc_out (oscs (elapse e s3) (next_node s1)) = {GainNode (Suc (next_node s1))} \<and>
              gain_out (gains (elapse e s3) (Suc (next_node s1))) = {MasterGain}) \<and>
           (\<forall>e. release cfg + 0.1 \<le> g + e \<longrightarrow>
              osc_out (oscs (elapse e s3) (v_osc old)) = {} \<and>
              gain_out (gains (elapse e s3) (v_gain old)) = {})"
    if h: "0 \<le> h" and g: "0 \<le> g" "g < release cfg + 0.1" for h g
  proof -
    let ?e1 = "elapse h s1"
    let ?T = "\<lparr>t_due = clock_ms s + h * 1000 + (release cfg + 0.1) * 1000, t_osc = v_osc old,
             t_gain = v_gain old\<rparr>"
    have a1: "activeVoices ?e1 k = Some old" by (simp add: elapse_frame s1)
    have t1: "0 \<le> currentTime ?e1" using t h by (simp add: elapse_frame s1)
    from stop_active_fields[OF a1 t1 c(3)] obtain s2 where s2:
      "stopNoteForElement cfg ?e1 (Some k) = Inr s2"
      "activeVoices s2 = (activeVoices ?e1)(k := None)" "next_node s2 = next_node ?e1"
      "clock_ms s2 = clock_ms ?e1" "currentTime s2 = currentTime ?e1"
      "waveSelect s2 = waveSelect ?e1"
      "dataset_midi (keyEls s2 k) = dataset_midi (keyEls ?e1 k)"
      "timers s2 = timers ?e1 @
         [\<lparr>t_due = clock_ms ?e1 + (release cfg + 0.1) * 1000, t_osc = v_osc old, t_gain = v_gain old\<rparr>]"
      by (elim exE conjE)
    have a2: "activeVoices s2 k = None" by (simp add: s2)
    have tm2: "timers s2 = timers ?e1 @ [?T]" by (simp add: s2 elapse_frame s1)
    let ?e2 = "elapse g s2"
    have d2: "dataset_midi (keyEls ?e2 k) = Some str" by (simp add: elapse_frame s2 s1)
    have a2': "activeVoices ?e2 k = None" by (simp add: elapse_frame a2)
    have w2: "selected_wave ?e2 \<noteq> ''custom''"
      using w by (simp add: selected_wave_def elapse_frame s2 s1)
    have t2: "0 \<le> currentTime ?e2" using t1 g(1) by (simp add: elapse_frame s2)
    have n2: "next_node ?e2 = ?n" by (simp add: elapse_frame s2)
    have n2s: "next_node s2 = ?n" by (simp add: elapse_frame s2)
    have ck2: "clock_ms ?e2 = clock_ms s + h * 1000 + g * 1000" by (simp add: elapse_frame s2 s1)
    have pend2: "?T \<in> set (timers ?e2)"
      using g(2) by (simp add: elapse_frame tm2 s2 s1)
    have sub2: "x = ?T \<or> x \<in> set (timers s1)" if "x \<in> set (timers ?e2)" for x
      using that by (auto simp add: elapse_frame tm2 split: if_splits)
    from start_new_fields[OF d2 p a2' w2 t2 c(1,2) conjI[OF f fs]] obtain s3 where s3:
      "startNoteForElement cfg ?e2 (Some k) = Inr s3"
      "activeVoices s3 = (activeVoices ?e2)(k \<mapsto> \<lparr>v_osc = next_node ?e2, v_gain = Suc (next_node ?e2)\<rparr>)"
      "timers s3 = timers ?e2" "clock_ms s3 = clock_ms ?e2"
      "osc_out (oscs s3 (next_node ?e2)) = {GainNode (Suc (next_node ?e2))}"
      "gain_out (gains s3 (Suc (next_node ?e2))) = {MasterGain}"
      by (elim exE conjE)
    have a3: "activeVoices s3 k = Some ?new" by (simp add: s3 n2)
    have pend: "?T \<in> set (timers s3)" using pend2 by (simp add: s3)
    have fresh: "t_osc x \<noteq> ?n \<and> t_gain x \<noteq> Suc ?n" if "x \<in> set (timers s3)" for x
    proof -
      from that have "x = ?T \<or> x \<in> set (timers s1)" using sub2 by (simp add: s3)
      then show ?thesis
      proof
        assume "x = ?T"
        with old show ?thesis by simp
      next
        assume "x \<in> set (timers s1)"
        from allocatedD(2)[OF s1(3) this] show ?thesis by simp
      qed
    qed
    have stays: "activeVoices (elapse e s3) k = Some ?new \<and>
        osc_out (oscs (elapse e s3) ?n) = {GainNode (Suc ?n)} \<and>
        gain_out (gains (elapse e s3) (Suc ?n)) = {MasterGain}" for e
    proof -
      have "osc_out (oscs (elapse e s3) ?n) = osc_out (oscs s3 ?n)"
        by (rule elapse_spares_osc) (simp add: fresh)
      moreover have "gain_out (gains (elapse e s3) (Suc ?n)) = gain_out (gains s3 (Suc ?n))"
        by (rule elapse_spares_gain) (simp add: fresh)
      ultimately show ?thesis using s3(5,6) a3 by (simp add: elapse_frame n2s)
    qed
    have fired: "osc_out (oscs (elapse e s3) (v_osc old)) = {} \<and>
        gain_out (gains (elapse e s3) (v_gain old)) = {}" if "release cfg + 0.1 \<le> g + e" for e
    proof -
      have "t_due ?T \<le> clock_ms s3 + e * 1000" using that by (simp add: s3 ck2)
      with pend show ?thesis using elapse_fires[of ?T s3 e] by simp
    qed
    have both: "osc_out (oscs s3 (v_osc old)) = {GainNode (v_gain old)} \<and>
        gain_out (gains s3 (v_gain old)) = {MasterGain} \<and>
        (g < release cfg + 0.02 \<longrightarrow> sounding s3 old \<and> sounding s3 ?new)"
      if a: "activeVoices s k = None"
    proof -
      from retrigger_at_rest[OF d p a w al t c conjI[OF f fs] h g]
      obtain r1 r2 r3 where r: "startNoteForElement cfg s (Some k) = Inr r1"
        "stopNoteForElement cfg (elapse h r1) (Some k) = Inr r2"
        "startNoteForElement cfg (elapse g r2) (Some k) = Inr r3"
        "activeVoices r1 k = Some \<lparr>v_osc = next_node s, v_gain = Suc (next_node s)\<rparr>"
        "next_node r1 = Suc (Suc (next_node s))"
        "osc_out (oscs r3 (next_node s)) = {GainNode (Suc (next_node s))}"
        "gain_out (gains r3 (Suc (next_node s))) = {MasterGain}"
        "g < release cfg + 0.02 \<longrightarrow>
           sounding r3 \<lparr>v_osc = next_node s, v_gain = Suc (next_node s)\<rparr> \<and>
           sounding r3 \<lparr>v_osc = Suc (Suc (next_node s)), v_gain = Suc (Suc (Suc (next_node s)))\<rparr>"
        by (elim exE conjE)
      from r(1) s1(1) have e1: "r1 = s1" by simp
      from r(2) s2(1) have e2: "r2 = s2" by (simp add: e1)
      from r(3) s3(1) have e3: "r3 = s3" by (simp add: e2)
      from r(4) s1(2) have o: "old = \<lparr>v_osc = next_node s, v_gain = Suc (next_node s)\<rparr>"
        by (simp add: e1)
      from r(5) have n: "next_node s1 = Suc (Suc (next_node s))" by (simp add: e1)
      from r(6,7,8) show ?thesis by (simp add: e3 o n)
    qed
    have cb: "\<exists>s4. timeoutCallback (v_osc old) (v_gain old) s3 = Inr s4 \<and>
          activeVoices s4 = activeVoices s3 \<and>
          osc_out (oscs s4 (v_osc old)) = {} \<and> gain_out (gains s4 (v_gain old)) = {} \<and>
          (\<forall>a. a \<noteq> v_osc old \<longrightarrow> oscs s4 a = oscs s3 a) \<and>
          (\<forall>a. a \<noteq> v_gain old \<longrightarrow> gains s4 a = gains s3 a)"
      by (simp add: timeoutCallback_eq)
    show ?thesis
      apply (rule exI[of _ s2], rule exI[of _ s3])
      using s2(1) a2 s3(1) a3 old pend both cb stays fired
      apply (intro conjI allI impI)
      apply blast+
      done
  qed
  from s1(1,2) seq show ?thesis by blast
qed

theorem old_cleanup_spares_new_voice_witness:
  "\<exists>s1 s2 s3. startNoteForElement ADSR page (Some 0) = Inr s1 \<and>
     activeVoices s1 0 = Some \<lparr>v_osc = 0, v_gain = 1\<rparr> \<and>
     stopNoteForElement ADSR (elapse 1 s1) (Some 0) = Inr s2 \<and>
     startNoteForElement ADSR (elapse 0.1 s2) (Some 0) = Inr s3 \<and>
     activeVoices s3 0 = Some \<lparr>v_osc = 2, v_gain = 3\<rparr> \<and>
     \<lparr>t_due = 1350, t_osc = 0, t_gain = 1\<rparr> \<in> set (timers s3) \<and>
     osc_out (oscs s3 0) = {GainNode 1} \<and> gain_out (gains s3 1) = {MasterGain} \<and>
     sounding s3 \<lparr>v_osc = 0, v_gain = 1\<rparr> \<and> sounding s3 \<lparr>v_osc = 2, v_gain = 3\<rparr> \<and>
     activeVoices (elapse 0.25 s3) 0 = Some \<lparr>v_osc = 2, v_gain = 3\<rparr> \<and>
     osc_out (oscs (elapse 0.25 s3) 2) = {GainNode 3} \<and>
     gain_out (gains (elapse 0.25 s3) 3) = {MasterGain} \<and>
     osc_out (oscs (elapse 0.25 s3) 0) = {} \<and>
     gain_out (gains (elapse 0.25 s3) 1) = {}"
proof -
  from old_cleanup_spares_new_voice[OF page_facts(1) parseInt_60 page_facts(2,4,5,6,7,8)
      key60_in_float_range ADSR_sustain_in_float_range, of 0]
  obtain s1 old where r: "startNoteForElement ADSR page (Some 0) = Inr s1"
    and v: "activeVoices s1 0 = Some old"
    and hg: "\<forall>h g. 0 \<le> h \<and> 0 \<le> g \<and> g < release ADSR + 0.1 \<longrightarrow>
        (\<exists>s2 s3.
           stopNoteForElement ADSR (elapse h s1) (Some 0) = Inr s2 \<and> activeVoices s2 0 = None \<and>
           startNoteForElement ADSR (elapse g s2) (Some 0) = Inr s3 \<and>
           activeVoices s3 0 = Some \<lparr>v_osc = next_node s1, v_gain = Suc (next_node s1)\<rparr> \<and>
           v_osc old < next_node s1 \<and> v_gain old < next_node s1 \<and>
           \<lparr>t_due = clock_ms page + h * 1000 + (release ADSR + 0.1) * 1000, t_osc = v_osc old,
             t_gain = v_gain old\<rparr> \<in> set (timers s3) \<and>
           (activeVoices page 0 = None \<longrightarrow>
              osc_out (oscs s3 (v_osc old)) = {GainNode (v_gain old)} \<and>
              gain_out (gains s3 (v_gain old)) = {MasterGain} \<and>
              (g < release ADSR + 0.02 \<longrightarrow>
                 sounding s3 old \<and>
                 sounding s3 \<lparr>v_osc = next_node s1, v_gain = Suc (next_node s1)\<rparr>)) \<and>
           (\<exists>s4. timeoutCallback (v_osc old) (v_gain old) s3 = Inr s4 \<and>
              activeVoices s4 = activeVoices s3 \<and>
              osc_out (oscs s4 (v_osc old)) = {} \<and> gain_out (gains s4 (v_gain old)) = {} \<and>
              (\<forall>a. a \<noteq> v_osc old \<longrightarrow> oscs s4 a = oscs s3 a) \<and>
              (\<forall>a. a \<noteq> v_gain old \<longrightarrow> gains s4 a = gains s3 a)) \<and>
           (\<forall>e. activeVoices (elapse e s3) 0 =
                Some \<lparr>v_osc = next_node s1, v_gain = Suc (next_node s1)\<rparr> \<and>
              osc_out (oscs (elapse e s3) (next_node s1)) = {GainNode (Suc (next_node s1))} \<and>
              gain_out (gains (elapse e s3) (Suc (next_node s1))) = {MasterGain}) \<and>
           (\<forall>e. release ADSR + 0.1 \<le> g + e \<longrightarrow>
              osc_out (oscs (elapse e s3) (v_osc old)) = {} \<and>
              gain_out (gains (elapse e s3) (v_gain old)) = {}))"
    by (elim exE conjE)
  from page_first_voice r v have o: "old = \<lparr>v_osc = 0, v_gain = 1\<rparr>" and n: "next_node s1 = 2"
    by auto
  have "(0::real) \<le> 1 \<and> (0::real) \<le> 0.1 \<and> 0.1 < release ADSR + 0.1" by (simp add: page_facts)
  from hg[THEN spec, of 1, THEN spec, of "0.1", THEN mp, OF this] obtain s2 s3 where s23: "stopNoteForElement ADSR (elapse 1 s1) (Some 0) = Inr s2"
    "startNoteForElement ADSR (elapse 0.1 s2) (Some 0) = Inr s3"
    and a3: "activeVoices s3 0 = Some \<lparr>v_osc = next_node s1, v_gain = Suc (next_node s1)\<rparr>"
    and tm: "\<lparr>t_due = clock_ms page + 1 * 1000 + (release ADSR + 0.1) * 1000, t_osc = v_osc old,
             t_gain = v_gain old\<rparr> \<in> set (timers s3)"
    and bo: "activeVoices page 0 = None \<longrightarrow>
              osc_out (oscs s3 (v_osc old)) = {GainNode (v_gain old)} \<and>
              gain_out (gains s3 (v_gain old)) = {MasterGain} \<and>
              (0.1 < release ADSR + 0.02 \<longrightarrow>
                 sounding s3 old \<and>
                 sounding s3 \<lparr>v_osc = next_node s1, v_gain = Suc (next_node s1)\<rparr>)"
    and st: "\<forall>e. activeVoices (elapse e s3) 0 =
                Some \<lparr>v_osc = next_node s1, v_gain = Suc (next_node s1)\<rparr> \<and>
              osc_out (oscs (elapse e s3) (next_node s1)) = {GainNode (Suc (next_node s1))} \<and>
              gain_out (gains (elapse e s3) (Suc (next_node s1))) = {MasterGain}"
    and fi: "\<forall>e. release ADSR + 0.1 \<le> 0.1 + e \<longrightarrow>
              osc_out (oscs (elapse e s3) (v_osc old)) = {} \<and>
              gain_out (gains (elapse e s3) (v_gain old)) = {}"
    by (elim exE conjE)
  from st have 1: "activeVoices (elapse 0.25 s3) 0 = Some \<lparr>v_osc = 2, v_gain = 3\<rparr> \<and>
     osc_out (oscs (elapse 0.25 s3) 2) = {GainNode 3} \<and>
     gain_out (gains (elapse 0.25 s3) 3) = {MasterGain}"
    by (simp add: n numeral_3_eq_3)
  from fi have 2: "osc_out (oscs (elapse 0.25 s3) 0) = {} \<and> gain_out (gains (elapse 0.25 s3) 1) = {}"
    by (simp add: o page_facts)
  from v a3 tm have 3: "activeVoices s1 0 = Some \<lparr>v_osc = 0, v_gain = 1\<rparr>"
    "activeVoices s3 0 = Some \<lparr>v_osc = 2, v_gain = 3\<rparr>"
    "\<lparr>t_due = 1350, t_osc = 0, t_gain = 1\<rparr> \<in> set (timers s3)"
    by (simp_all add: o n page_facts numeral_3_eq_3)
  from bo have 4: "osc_out (oscs s3 0) = {GainNode 1}" "gain_out (gains s3 1) = {MasterGain}"
    "sounding s3 \<lparr>v_osc = 0, v_gain = 1\<rparr>" "sounding s3 \<lparr>v_osc = 2, v_gain = 3\<rparr>"
    by (simp_all add: o n page_facts numeral_3_eq_3)
  show ?thesis
    apply (rule exI[of _ s1], rule exI[of _ s2], rule exI[of _ s3])
    using r s23 1 2 3 4 apply (intro conjI)
    apply blast+
    done
qed


text \<open>
  On the example page, after the key was pressed, held for one second, released and
  pressed again 0.1 seconds later, two voices sound for the key: the one made of the
  nodes 0 and 1, which is in its release, and the one made of the nodes 2 and 3.
\<close>

theorem two_voices_sound_counterexample:
  "sounding_after
     (run ADSR page [NoteOn (Some 0), Elapse 1, NoteOff (Some 0), Elapse 0.1, NoteOn (Some 0)])
     \<lparr>v_osc = 0, v_gain = 1\<rparr> \<and>
   sounding_after
     (run ADSR page [NoteOn (Some 0), Elapse 1, NoteOff (Some 0), Elapse 0.1, NoteOn (Some 0)])
     \<lparr>v_osc = 2, v_gain = 3\<rparr>"
proof -
  have "(0::real) \<le> 1" "(0::real) \<le> 0.1" "(0.1::real) < release ADSR + 0.1"
    by (simp_all add: page_facts)
  from retrigger_at_rest[OF page_facts(1) parseInt_60 page_facts(3,2,4,5,6,7,8) page_fits this,
      of 0]
  obtain s1 s2 s3 where r: "startNoteForElement ADSR page (Some 0) = Inr s1"
    "stopNoteForElement ADSR (elapse 1 s1) (Some 0) = Inr s2"
    "startNoteForElement ADSR (elapse 0.1 s2) (Some 0) = Inr s3"
    "0.1 < release ADSR + 0.02 \<longrightarrow>
       sounding s3 \<lparr>v_osc = next_node page, v_gain = Suc (next_node page)\<rparr> \<and>
       sounding s3 \<lparr>v_osc = Suc (Suc (next_node page)),
         v_gain = Suc (Suc (Suc (next_node page)))\<rparr>"
    by (elim exE conjE)
  from r(4) have "sounding s3 \<lparr>v_osc = 0, v_gain = 1\<rparr>" "sounding s3 \<lparr>v_osc = 2, v_gain = 3\<rparr>"
    by (simp_all add: page_facts numeral_2_eq_2 numeral_3_eq_3)
  with r(1,2,3) show ?thesis by (simp add: bindE_def sounding_after_def)
qed

subsection \<open>Note-on on a sounding key\<close>

text \<open>
  Claim C4. When note-on has returned for a key that carries a number, the key has a
  voice, and a second note-on for the same key returns the state as it is: no node is
  created, no envelope is scheduled again, the registry is not touched.
\<close>

theorem noteOn_twice:
  assumes "startNoteForElement cfg s (Some k) = Inr s1"
    and "dataset_midi (keyEls s k) = Some str" and "str \<noteq> []"
  shows "(\<exists>v. activeVoices s1 k = Some v) \<and> startNoteForElement cfg s1 (Some k) = Inr s1"
proof (cases "activeVoices s k")
  case (Some v)
  with assms have s1: "s1 = (if audio_state s = Suspended then s\<lparr>audio_state := Running\<rparr> else s)"
    by (simp add: start_registered)
  then have "dataset_midi (keyEls s1 k) = Some str" "activeVoices s1 k = Some v"
    "audio_state s1 \<noteq> Suspended"
    using assms Some by auto
  then show ?thesis using assms(3) by (simp add: start_registered)
next
  case None
  from start_new_inv[OF assms(1,2,3) None] obtain m where m: "parseInt str = Num m"
    "selected_wave s \<noteq> ''custom''" "0 \<le> currentTime s" "0 \<le> currentTime s + attack cfg"
    "0 \<le> currentTime s + attack cfg + decay cfg"
    "in_float_range (440 * 2 powr ((m - 69) / 12)) \<and>
      in_float_range (max 0.0001 (sustain cfg))" by blast
  from start_new_eq[OF assms(2,3) m(1) None m(2-6)] assms(1)
  have d: "dataset_midi (keyEls s1 k) = Some str"
    and a: "activeVoices s1 k = Some \<lparr>v_osc = next_node s, v_gain = Suc (next_node s)\<rparr>"
    and r: "audio_state s1 \<noteq> Suspended"
    using assms(2) by auto
  show ?thesis using d a r assms(3) by (simp add: start_registered)
qed

theorem noteOn_twice_witness:
  "\<exists>s1. startNoteForElement ADSR page (Some 0) = Inr s1 \<and>
     activeVoices s1 0 = Some \<lparr>v_osc = 0, v_gain = 1\<rparr> \<and> next_node s1 = 2 \<and>
     startNoteForElement ADSR s1 (Some 0) = Inr s1"
proof -
  obtain s1 where s1: "startNoteForElement ADSR page (Some 0) = Inr s1"
    and a: "activeVoices s1 0 = Some \<lparr>v_osc = 0, v_gain = 1\<rparr>" and n: "next_node s1 = 2"
    by (simp add: page_def page_start)
  have "dataset_midi (keyEls page 0) = Some ''60''"
    by (simp add: page_def init_def key60_def)
  from noteOn_twice[OF s1 this] s1 a n show ?thesis by simp
qed

subsection \<open>The release ramp\<close>

text \<open>
  Claim C5. Note-off on a key with a voice, at time \<open>now\<close>, leaves on the gain's
  timeline the events before \<open>now\<close>, then a set-value event at \<open>now\<close> whose value is
  the one the parameter has at that moment, then an exponential ramp to 0.0001 ending
  at \<open>now + release\<close>. The example releases 50 ms after note-on, in the decay: the
  release starts from \<open>(3/4) powr (1/3)\<close>, above the decay's target 0.75.
\<close>

theorem release_from_current_value:
  assumes "activeVoices s k = Some v" and "0 \<le> currentTime s" and "0 \<le> release cfg"
  shows "\<exists>s'. stopNoteForElement cfg s (Some k) = Inr s' \<and>
      p_events (gain_gain (gains s' (v_gain v))) =
        filter (\<lambda>e. ev_time e < currentTime s) (p_events (gain_gain (gains s (v_gain v)))) @
        [SetValue (p_value (gain_gain (gains s (v_gain v)))) (currentTime s),
         ExpRamp 0.0001 (currentTime s + release cfg)] \<and>
      p_value (gain_gain (gains s' (v_gain v))) = p_value (gain_gain (gains s (v_gain v)))"
proof -
  let ?now = "currentTime s"
  let ?p = "gain_gain (gains s (v_gain v))"
  let ?kept = "filter (\<lambda>e. ev_time e < ?now) (p_events ?p)"
  have 1: "insert_event (SetValue (p_value ?p) ?now) ?kept = ?kept @ [SetValue (p_value ?p) ?now]"
    by (rule insert_event_last) auto
  have 2: "insert_event (ExpRamp (1 / 10000) (?now + release cfg)) (?kept @ [SetValue (p_value ?p) ?now]) =
      ?kept @ [SetValue (p_value ?p) ?now] @ [ExpRamp (1 / 10000) (?now + release cfg)]"
    using assms(3) by (subst insert_event_last) auto
  from assms have "0 \<le> ?now + release cfg" by simp
  from stop_active_eq[OF assms(1,2) this] show ?thesis
    by (simp add: 1 2 p_value_events del: filter.simps)
qed

theorem release_from_current_value_witness:
  "\<exists>s1 s'. startNoteForElement ADSR page (Some 0) = Inr s1 \<and>
     stopNoteForElement ADSR (elapse 0.05 s1) (Some 0) = Inr s' \<and>
     p_events (gain_gain (gains s' 1)) =
       [SetValue 0.0001 0, ExpRamp 1 0.01, SetValue ((3 / 4) powr (1 / 3)) 0.05,
        ExpRamp 0.0001 0.3] \<and>
     3 / 4 < (3 / 4 :: real) powr (1 / 3)"
proof -
  obtain s1 where s1: "startNoteForElement ADSR page (Some 0) = Inr s1"
    and a: "activeVoices s1 0 = Some \<lparr>v_osc = 0, v_gain = 1\<rparr>"
    and t: "currentTime s1 = 0" and r: "audio_state s1 = Running" and tm: "timers s1 = []"
    and g: "gain_gain (gains s1 1) =
       \<lparr>p_slot = 1, p_events = [SetValue 0.0001 0, ExpRamp 1 0.01, ExpRamp 0.75 0.13]\<rparr>"
    by (simp add: page_def page_start)
  let ?s = "elapse 0.05 s1"
  have a': "activeVoices ?s 0 = Some \<lparr>v_osc = 0, v_gain = 1\<rparr>"
    and t': "currentTime ?s = 0.05"
    using a t r by (simp_all add: elapse_frame)
  have g': "gain_gain (gains ?s 1) =
       \<lparr>p_slot = (3 / 4) powr (1 / 3),
        p_events = [SetValue 0.0001 0, ExpRamp 1 0.01, ExpRamp 0.75 0.13]\<rparr>"
    using r t tm g by (simp add: elapse_gain render_param_def)
  have "\<bar>(3 / 4 :: real) powr (1 / 3)\<bar> \<le> 1" by (simp add: powr_le1)
  also have "(1::real) \<le> max_float" by (simp add: max_float_def)
  finally have b: "\<bar>(3 / 4 :: real) powr (1 / 3)\<bar> \<le> max_float" .
  have sl: "p_slot (gain_gain (gains ?s 1)) = (3 / 4) powr (1 / 3)"
    by (subst g') simp
  have v': "p_value (gain_gain (gains ?s 1)) = (3 / 4) powr (1 / 3)"
    unfolding p_value_def sl by (rule to_single_id) (rule b)
  from release_from_current_value[OF a', of ADSR] t' g' v' s1 mid_decay_value
  show ?thesis by (auto simp: ADSR_def)
qed

subsection \<open>Note-off without a voice\<close>

text \<open>
  Claim C6. Note-off on \<^verbatim>\<open>null\<close> returns the state as it is, and note-off on a key
  without voice returns without exception and leaves the registry, the nodes and the
  timers as they are (it only takes the class \<^verbatim>\<open>active\<close> off the element).
\<close>

theorem noteOff_without_voice:
  "stopNoteForElement cfg s None = Inr s \<and>
   (activeVoices s k = None \<longrightarrow>
     (\<exists>s'. stopNoteForElement cfg s (Some k) = Inr s' \<and> activeVoices s' = activeVoices s \<and>
        oscs s' = oscs s \<and> gains s' = gains s \<and> timers s' = timers s \<and>
        next_node s' = next_node s))"
  by (simp add: stop_null stop_absent classList_remove_def)

theorem noteOff_without_voice_witness:
  "\<exists>s1. startNoteForElement ADSR page (Some 1) = Inr s1 \<and> activeVoices s1 0 = None \<and>
     (\<exists>s2. stopNoteForElement ADSR s1 (Some 0) = Inr s2 \<and> activeVoices s2 = activeVoices s1 \<and>
        activeVoices s2 1 = Some \<lparr>v_osc = 0, v_gain = 1\<rparr> \<and>
        oscs s2 = oscs s1 \<and> gains s2 = gains s1 \<and> timers s2 = timers s1 \<and>
        next_node s2 = next_node s1)"
proof -
  obtain s1 where s1: "startNoteForElement ADSR page (Some 1) = Inr s1"
    and a: "activeVoices s1 = [1 \<mapsto> \<lparr>v_osc = 0, v_gain = 1\<rparr>]"
    by (simp add: page_def page_start)
  from a have n: "activeVoices s1 0 = None" by simp
  from noteOff_without_voice[of ADSR s1 0] n s1 a show ?thesis by auto
qed

subsection \<open>Pitch\<close>

text \<open>
  Claim C7. \<open>midiToFreq\<close> is a function of the key number alone and returns
  \<open>440 * 2 powr ((n - 69) / 12)\<close>: 440 at 69, within 0.01 of 261.63 at 60, and with
  no clamping outside the range 0 to 127 (450560 at 189, 55/128 at -51).
\<close>

theorem midiToFreq_equal_temperament: "midiToFreq (Num n) = Num (440 * 2 powr ((n - 69) / 12)) \<and>
   midiToFreq (Num 69) = Num 440 \<and>
   (\<exists>f. midiToFreq (Num 60) = Num f \<and> \<bar>f - 261.63\<bar> < 0.01) \<and>
   midiToFreq (Num 189) = Num 450560 \<and>
   midiToFreq (Num (- 51)) = Num (55 / 128)"
proof -
  have a: "midiToFreq (Num 189) = Num 450560"
  proof -
    have "(2::real) powr 10 = 2 ^ 10" by (simp flip: powr_numeral)
    then show ?thesis by simp
  qed
  have b: "midiToFreq (Num (- 51)) = Num (55 / 128)"
  proof -
    have "(2::real) powr (- 10) = 1 / 2 ^ 10" by (simp add: powr_minus_divide flip: powr_numeral)
    then show ?thesis by simp
  qed
  have c: "\<exists>f. midiToFreq (Num 60) = Num f \<and> \<bar>f - 261.63\<bar> < 0.01"
  proof -
    have "midiToFreq (Num 60) = Num (440 * 2 powr (- 3 / 4))" by simp
    moreover have "\<bar>440 * (2::real) powr (- 3 / 4) - 261.63\<bar> < 0.01"
      using freq60_bounds by linarith
    ultimately show ?thesis by blast
  qed
  show ?thesis using a b c by simp
qed

subsection \<open>Exceptions\<close>

text \<open>
  Claim C8, as the code has it. With the source's envelope and the audio clock not
  negative: note-on returns the state as it is for \<^verbatim>\<open>null\<close> and for a key without
  number; note-on returns without exception for a key whose \<^verbatim>\<open>dataset.midi\<close>
  parses as a number with a frequency within the range of a single-precision number,
  which are the key numbers up to 1499, unless the wave selector shows \<^verbatim>\<open>custom\<close>;
  note-off returns without exception for every key, a failing \<^verbatim>\<open>osc.stop\<close> being
  caught; and the timer's callback returns without exception.
\<close>

theorem exceptions_absorbed:
  assumes "0 \<le> currentTime s"
  shows "startNoteForElement ADSR s None = Inr s \<and>
     (dataset_midi (keyEls s k) = None \<or> dataset_midi (keyEls s k) = Some [] \<longrightarrow>
        startNoteForElement ADSR s (Some k) = Inr s) \<and>
     (\<forall>str m. dataset_midi (keyEls s k) = Some str \<and> parseInt str = Num m \<and>
        in_float_range (440 * 2 powr ((m - 69) / 12)) \<and>
        selected_wave s \<noteq> ''custom'' \<longrightarrow> (\<exists>s'. startNoteForElement ADSR s (Some k) = Inr s')) \<and>
     (\<forall>str m. dataset_midi (keyEls s k) = Some str \<and> parseInt str = Num m \<and> m \<le> 1499 \<and>
        selected_wave s \<noteq> ''custom'' \<longrightarrow> (\<exists>s'. startNoteForElement ADSR s (Some k) = Inr s')) \<and>
     (\<exists>s'. stopNoteForElement ADSR s key = Inr s') \<and>
     (\<exists>s'. timeoutCallback osc gain s = Inr s')"
proof -
  have a: "\<exists>s'. startNoteForElement ADSR s (Some k) = Inr s'"
    if d: "dataset_midi (keyEls s k) = Some str" and p: "parseInt str = Num m"
      and f: "in_float_range (440 * 2 powr ((m - 69) / 12))"
      and w: "selected_wave s \<noteq> ''custom''" for str m
  proof (cases "activeVoices s k")
    case None
    from p have ne: "str \<noteq> []" by (auto simp: parseInt_Nil)
    have "0 \<le> currentTime s + attack ADSR" "0 \<le> currentTime s + attack ADSR + decay ADSR"
      using assms by (simp_all add: ADSR_def)
    from start_new_eq[OF d ne p None w assms this conjI[OF f ADSR_sustain_in_float_range]]
    show ?thesis by blast
  next
    case (Some v)
    from p have ne: "str \<noteq> []" by (auto simp: parseInt_Nil)
    from start_registered[OF d ne Some] show ?thesis by blast
  qed
  have a': "\<exists>s'. startNoteForElement ADSR s (Some k) = Inr s'"
    if d: "dataset_midi (keyEls s k) = Some str" and p: "parseInt str = Num m"
      and f: "m \<le> 1499" and w: "selected_wave s \<noteq> ''custom''" for str m
    using a[OF d p key_in_float_range[OF f] w] .
  have b: "\<exists>s'. stopNoteForElement ADSR s key = Inr s'"
    using assms by (intro stop_returns) (simp_all add: ADSR_def)
  have c: "startNoteForElement ADSR s None = Inr s" by (rule start_null)
  have e: "dataset_midi (keyEls s k) = None \<or> dataset_midi (keyEls s k) = Some [] \<longrightarrow>
        startNoteForElement ADSR s (Some k) = Inr s"
    by (simp add: start_missing)
  have g: "\<exists>s'. timeoutCallback osc gain s = Inr s'" by (simp add: timeoutCallback_eq)
  from a a' b c e g show ?thesis by blast
qed

text \<open>
  On the example page: note-on for \<^verbatim>\<open>null\<close>, note-on of key 60, and in the state that
  note-on returned, note-off of the key and the callback of the voice's timer.
\<close>

theorem exceptions_absorbed_witness:
  "startNoteForElement ADSR page None = Inr page \<and>
   (\<exists>s1. startNoteForElement ADSR page (Some 0) = Inr s1 \<and>
      activeVoices s1 0 = Some \<lparr>v_osc = 0, v_gain = 1\<rparr> \<and>
      (\<exists>s2. stopNoteForElement ADSR s1 (Some 0) = Inr s2) \<and>
      (\<exists>s3. timeoutCallback 0 1 s1 = Inr s3))"
proof -
  have c: "0 \<le> currentTime page" "dataset_midi (keyEls page 0) = Some ''60''"
    "selected_wave page \<noteq> ''custom''"
    by (simp_all add: page_facts)
  from exceptions_absorbed[OF c(1), of 0 None] c(2,3) parseInt_60 key60_in_float_range
  have 1: "startNoteForElement ADSR page None = Inr page"
    and "\<exists>s1. startNoteForElement ADSR page (Some 0) = Inr s1" by blast+
  then obtain s1 where s1: "startNoteForElement ADSR page (Some 0) = Inr s1" by blast
  with page_first_voice have v: "activeVoices s1 0 = Some \<lparr>v_osc = 0, v_gain = 1\<rparr>"
    and t: "0 \<le> currentTime s1" by auto
  from exceptions_absorbed[OF t, of 0 "Some 0" 0 1]
  have 2: "\<exists>s2. stopNoteForElement ADSR s1 (Some 0) = Inr s2"
    and 3: "\<exists>s3. timeoutCallback 0 1 s1 = Inr s3" by blast+
  from 1 s1 v 2 3 show ?thesis by blast
qed

text \<open>
  Note-on lets an exception out when the key number is so large that its frequency
  is beyond the range of a single-precision number: \<^verbatim>\<open>osc.frequency.setValueAtTime\<close>
  at line 151 throws \<open>TypeError\<close> for the key number 1500.
\<close>

theorem noteOn_throws_counterexample:
  "startNoteForElement ADSR far_page (Some 0) = Inl TypeError"
proof -
  have "\<not> in_float_range (440 * 2 powr ((1500 - 69) / 12))"
    by (rule key_out_of_float_range) simp
  moreover have "dataset_midi (keyEls far_page 0) = Some ''1500''" "activeVoices far_page 0 = None"
    by (simp_all add: far_page_def init_def)
  ultimately show ?thesis
    using parseInt_1500 by (intro start_overflow[where str = "''1500''" and m = 1500]) simp_all
qed

subsection \<open>Ramp targets\<close>

text \<open>
  Claim C9. For every envelope, note-on of a key at rest schedules on the new gain a
  set-value event at 0.0001, a ramp to 1 and a ramp to \<open>max 0.0001 sustain\<close>, so
  every ramp target is positive, also with sustain 0. The call fails only when an end
  time is negative, or when the frequency or the sustain level is beyond the range of
  a single-precision number, never for a target that is 0.
\<close>

theorem ramp_targets_positive:
  assumes "dataset_midi (keyEls s k) = Some str" and "str \<noteq> []" and "parseInt str = Num m"
    and "activeVoices s k = None" and "selected_wave s \<noteq> ''custom''" and "0 \<le> currentTime s"
  shows "case startNoteForElement cfg s (Some k) of
      Inl e \<Rightarrow>
        (e = RangeError \<and>
           (currentTime s + attack cfg < 0 \<or> currentTime s + attack cfg + decay cfg < 0)) \<or>
        (e = TypeError \<and>
           (\<not> in_float_range (440 * 2 powr ((m - 69) / 12)) \<or>
            \<not> in_float_range (max 0.0001 (sustain cfg))))
    | Inr s' \<Rightarrow>
        activeVoices s' k = Some \<lparr>v_osc = next_node s, v_gain = Suc (next_node s)\<rparr> \<and>
        set (p_events (gain_gain (gains s' (Suc (next_node s))))) =
          {SetValue 0.0001 (currentTime s), ExpRamp 1 (currentTime s + attack cfg),
           ExpRamp (max 0.0001 (sustain cfg)) (currentTime s + attack cfg + decay cfg)} \<and>
        0 < max 0.0001 (sustain cfg) \<and>
        (\<forall>e \<in> set (p_events (gain_gain (gains s' (Suc (next_node s))))).
           \<forall>v t. e = ExpRamp v t \<longrightarrow> 0 < v)"
proof (cases "in_float_range (440 * 2 powr ((m - 69) / 12))")
  case False
  from start_overflow[OF assms(1-4) False] False show ?thesis by simp
next
  case f: True
  note fail = start_new_fail[OF assms f]
  show ?thesis
  proof (cases "currentTime s + attack cfg < 0")
    case True
    from fail(1)[OF True] True show ?thesis by simp
  next
    case a: False
    then have ta: "0 \<le> currentTime s + attack cfg" by simp
    show ?thesis
    proof (cases "in_float_range (max 0.0001 (sustain cfg))")
      case False
      from fail(2)[OF ta False] False show ?thesis by simp
    next
      case fs: True
      show ?thesis
      proof (cases "currentTime s + attack cfg + decay cfg < 0")
        case True
        from fail(3)[OF ta fs True] True show ?thesis by simp
      next
        case False
        then have td: "0 \<le> currentTime s + attack cfg + decay cfg" by simp
        have pos: "0 < max (1 / 10000) (sustain cfg)" by (simp add: max_def)
        from start_new_eq[OF assms ta td conjI[OF f fs]] pos show ?thesis
          by (auto simp add: set_insert_event)
      qed
    qed
  qed
qed

theorem ramp_targets_positive_witness:
  "\<exists>s'. startNoteForElement (ADSR\<lparr>sustain := 0\<rparr>) page (Some 0) = Inr s' \<and>
     activeVoices s' 0 = Some \<lparr>v_osc = 0, v_gain = 1\<rparr> \<and>
     set (p_events (gain_gain (gains s' 1))) =
       {SetValue 0.0001 0, ExpRamp 1 0.01, ExpRamp 0.0001 0.13}"
proof -
  have "dataset_midi (keyEls page 0) = Some ''60''" "''60'' \<noteq> []" "activeVoices page 0 = None"
    "selected_wave page \<noteq> ''custom''" "0 \<le> currentTime page" "next_node page = 0"
    "currentTime page = 0"
    by (simp_all add: page_def init_def key60_def selected_wave_def)
  from ramp_targets_positive[OF this(1,2) parseInt_60 this(3,4,5),
      of "ADSR\<lparr>sustain := 0\<rparr>"] this(6,7)
  show ?thesis
    by (cases "startNoteForElement (ADSR\<lparr>sustain := 0\<rparr>) page (Some 0)")
       (simp_all add: ADSR_def freq60_in_float_range floor_in_range)
qed

subsection \<open>The default waveform\<close>

text \<open>
  Claim C10. When the page has no wave selector, or its value is empty, the
  oscillator of a voice that note-on creates has the type \<^verbatim>\<open>triangle\<close>.
\<close>

theorem default_wave:
  assumes "waveSelect s = None \<or> waveSelect s = Some []"
    and "startNoteForElement cfg s (Some k) = Inr s'"
    and "dataset_midi (keyEls s k) = Some str" and "str \<noteq> []" and "activeVoices s k = None"
  shows "\<exists>v. activeVoices s' k = Some v \<and> osc_type (oscs s' (v_osc v)) = ''triangle''"
proof -
  from assms(1) have w: "selected_wave s = ''triangle''"
    by (auto simp: selected_wave_def)
  from start_new_inv[OF assms(2,3,4,5)] obtain m where m: "parseInt str = Num m"
    "selected_wave s \<noteq> ''custom''" "0 \<le> currentTime s" "0 \<le> currentTime s + attack cfg"
    "0 \<le> currentTime s + attack cfg + decay cfg"
    "in_float_range (440 * 2 powr ((m - 69) / 12)) \<and>
      in_float_range (max 0.0001 (sustain cfg))" by blast
  from start_new_eq[OF assms(3,4) m(1) assms(5) m(2-6)] assms(2) w
  show ?thesis by (auto simp: valid_wave_def)
qed

theorem default_wave_witness:
  "waveSelect bare_page = None \<and>
   (\<exists>s'. startNoteForElement ADSR bare_page (Some 0) = Inr s' \<and>
      (\<exists>v. activeVoices s' 0 = Some v \<and> osc_type (oscs s' (v_osc v)) = ''triangle''))"
proof -
  obtain s' where s': "startNoteForElement ADSR bare_page (Some 0) = Inr s'"
    by (simp add: bare_page_def page_start)
  have w: "waveSelect bare_page = None" and d: "dataset_midi (keyEls bare_page 0) = Some ''60''"
    and a: "activeVoices bare_page 0 = None"
    by (simp_all add: bare_page_def init_def key60_def)
  from default_wave[OF _ s' d _ a] w s' show ?thesis by simp
qed

end
